theory Spec2Isabelle
  imports Complex_Main "HOL-Library.Char_ord" "HOL-Library.List_Lexorder"
begin

section \<open>The content status checker of \<open>pipeline/check_status.py\<close>\<close>

text \<open>
  The script walks a registry of CI/CD platforms, asks the file system whether each of
  eleven expected files of a platform is there and how large it is, prints a report and
  returns the list of per-platform reports.  The embedding keeps the shape of the script:
  \<^item> the file system and standard output are an explicit \<open>world\<close> that every operation
    receives and returns;
  \<^item> a Python exception is a value \<open>Inl e\<close> of the result, and it ends the run where it
    is raised, since the script has no \<open>try\<close>;
  \<^item> a Python \<open>dict\<close> is an association list with distinct keys in insertion order;
  \<^item> the status of a file is the Python string the script stores.
\<close>

subsection \<open>Paths, as \<open>pathlib\<close> parses them\<close>

text \<open>
  A POSIX path is its list of components below the root.  \<open>pathlib\<close> cuts the text at
  every slash and drops the empty components and the components \<open>.\<close>; it keeps \<open>..\<close>.
  All paths built by the script start with a slash.
\<close>

type_synonym path = "string list"

fun split_slash :: "string \<Rightarrow> string list" where
  "split_slash [] = [[]]"
| "split_slash (c # cs) =
     (if c = CHR ''/'' then [] # split_slash cs
      else (case split_slash cs of
              [] \<Rightarrow> [[c]]
            | x # xs \<Rightarrow> (c # x) # xs))"

definition path_parts :: "string \<Rightarrow> path" where
  "path_parts s = filter (\<lambda>c. c \<noteq> [] \<and> c \<noteq> ''.'') (split_slash s)"

text \<open>\<open>Path(s)\<close> for a text \<open>s\<close> that starts with a slash.\<close>

definition Path :: "string \<Rightarrow> path" where
  "Path s = path_parts s"

text \<open>\<open>p / s\<close>: a text that starts with a slash replaces \<open>p\<close>, any other is appended.\<close>

definition joinpath :: "path \<Rightarrow> string \<Rightarrow> path" where
  "joinpath p s = (case s of
                     [] \<Rightarrow> p
                   | c # cs \<Rightarrow> if c = CHR ''/'' then path_parts s else p @ path_parts s)"

subsection \<open>The world: file system answers and standard output\<close>

text \<open>
  What \<open>Path.exists()\<close> and \<open>Path.stat()\<close> answer is the library's and the operating
  system's business, so both are taken as they come: each is a function of the path that
  gives a value or the \<open>errno\<close> of an \<open>OSError\<close>.  Nothing is assumed about how the two
  relate.  \<open>stdout\<close> holds the lines printed so far, one entry for each call of \<open>print\<close>.
\<close>

datatype file_kind = Regular | Directory

record stat_result =
  st_size :: nat
  st_kind :: file_kind

datatype py_error = OSError nat | KeyError string | ZeroDivisionError

record world =
  fs_exists :: "path \<Rightarrow> nat + bool"
  fs_stat :: "path \<Rightarrow> nat + stat_result"
  stdout :: "string list"

type_synonym 'a io = "world \<Rightarrow> (py_error + 'a) \<times> world"

definition return_io :: "'a \<Rightarrow> 'a io" where
  "return_io a w = (Inr a, w)"

definition raise_io :: "py_error \<Rightarrow> 'a io" where
  "raise_io e w = (Inl e, w)"

text \<open>Sequencing: an exception of the first part skips the rest.\<close>

definition bind_io :: "'a io \<Rightarrow> ('a \<Rightarrow> 'b io) \<Rightarrow> 'b io" where
  "bind_io m f w = (case m w of
                      (Inl e, w') \<Rightarrow> (Inl e, w')
                    | (Inr a, w') \<Rightarrow> f a w')"

definition path_exists :: "path \<Rightarrow> bool io" where
  "path_exists p w = (case fs_exists w p of
                        Inl e \<Rightarrow> (Inl (OSError e), w)
                      | Inr b \<Rightarrow> (Inr b, w))"

definition path_stat :: "path \<Rightarrow> stat_result io" where
  "path_stat p w = (case fs_stat w p of
                      Inl e \<Rightarrow> (Inl (OSError e), w)
                    | Inr st \<Rightarrow> (Inr st, w))"

text \<open>
  \<open>print\<close> adds one line to standard output.  It is taken to succeed: a closed or
  broken standard output, for which Python's \<open>print\<close> raises, is outside the model.
\<close>

definition print :: "string \<Rightarrow> unit io" where
  "print s w = (Inr (), w\<lparr>stdout := stdout w @ [s]\<rparr>)"

subsection \<open>Dictionaries\<close>

text \<open>\<open>d[k] = v\<close>: a key already there keeps its place, a new key goes to the end.\<close>

fun dict_set :: "('k \<times> 'v) list \<Rightarrow> 'k \<Rightarrow> 'v \<Rightarrow> ('k \<times> 'v) list" where
  "dict_set [] k v = [(k, v)]"
| "dict_set ((k', v') # d) k v =
     (if k' = k then (k, v) # d else (k', v') # dict_set d k v)"

subsection \<open>\<open>check_platform_structure\<close>\<close>

record report =
  platform :: string
  directory_exists :: bool
  files :: "(string \<times> string) list"

definition expected_files :: "string list" where
  "expected_files =
     [''README.md'',
      ''templates/basic.yml'',
      ''templates/advanced.yml'',
      ''examples/java-spring-boot-example.md'',
      ''examples/python-fastapi-example.md'',
      ''examples/nodejs-express-example.md'',
      ''examples/go-example.md'',
      ''docs/getting-started.md'',
      ''docs/advanced-configuration.md'',
      ''scripts/setup.sh'',
      ''scripts/validate.sh'']"

text \<open>
  The loop of lines 153 to 159 over the rest of the expected files; \<open>fs\<close> is
  \<open>status["files"]\<close> as filled so far.
\<close>

fun check_files :: "path \<Rightarrow> string list \<Rightarrow> (string \<times> string) list \<Rightarrow> (string \<times> string) list io"
  where
  "check_files platform_dir [] fs = return_io fs"
| "check_files platform_dir (file_path # rest) fs =
     (let full_path = joinpath platform_dir file_path in
      bind_io (path_exists full_path) (\<lambda>ex.
        if ex then
          bind_io (path_stat full_path) (\<lambda>st.
            check_files platform_dir rest
              (dict_set fs file_path (if st_size st > 0 then ''exists'' else ''empty'')))
        else
          check_files platform_dir rest (dict_set fs file_path ''missing'')))"

definition platform_dir_of :: "string \<Rightarrow> path" where
  "platform_dir_of platform_key = Path (''/workspaces/AI-prompt/pipeline/'' @ platform_key)"

definition check_platform_structure :: "string \<Rightarrow> report io" where
  "check_platform_structure platform_key =
     (let platform_dir = platform_dir_of platform_key in
      bind_io (path_exists platform_dir) (\<lambda>d.
        bind_io (check_files platform_dir expected_files []) (\<lambda>fs.
          return_io \<lparr>platform = platform_key, directory_exists = d, files = fs\<rparr>)))"

subsection \<open>\<open>main\<close>\<close>

text \<open>The registry is a \<open>dict\<close> from platform key to a \<open>dict\<close> of its properties.\<close>

type_synonym registry = "(string \<times> (string \<times> string) list) list"

definition platform_entry :: "string \<Rightarrow> string \<Rightarrow> string \<Rightarrow> string \<Rightarrow> (string \<times> string) list"
  where
  "platform_entry n t f e =
     [(''name'', n), (''type'', t), (''format'', f), (''config_extension'', e)]"

definition PLATFORMS :: registry where
  "PLATFORMS =
     [(''gitlab-ci'', platform_entry ''GitLab CI/CD'' ''cloud_native'' ''yaml'' ''.yml''),
      (''azure-pipelines'', platform_entry ''Azure Pipelines'' ''cloud_native'' ''yaml'' ''.yml''),
      (''aws-codepipeline'', platform_entry ''AWS CodePipeline'' ''cloud_native'' ''yaml'' ''.yml''),
      (''gcp-cloud-build'', platform_entry ''GCP Cloud Build'' ''cloud_native'' ''yaml'' ''.yml''),
      (''circleci'', platform_entry ''CircleCI'' ''saas'' ''yaml'' ''.yml''),
      (''travis-ci'', platform_entry ''Travis CI'' ''saas'' ''yaml'' ''.yml''),
      (''appveyor'', platform_entry ''AppVeyor'' ''saas'' ''yaml'' ''.yml''),
      (''bitbucket-pipelines'', platform_entry ''Bitbucket Pipelines'' ''saas'' ''yaml'' ''.yml''),
      (''buildkite'', platform_entry ''Buildkite'' ''saas'' ''yaml'' ''.yml''),
      (''drone-ci'', platform_entry ''Drone CI'' ''saas'' ''yaml'' ''.yml''),
      (''concourse-ci'', platform_entry ''Concourse CI'' ''saas'' ''yaml'' ''.yml''),
      (''jenkins'', platform_entry ''Jenkins'' ''selfhosted'' ''groovy'' []),
      (''teamcity'', platform_entry ''TeamCity'' ''selfhosted'' ''kotlin'' []),
      (''cloudbees'', platform_entry ''CloudBees CI'' ''selfhosted'' ''groovy'' []),
      (''gocd'', platform_entry ''GoCD'' ''selfhosted'' ''yaml'' ''.yml''),
      (''tekton'', platform_entry ''Tekton'' ''kubernetes'' ''yaml'' ''.yml''),
      (''spinnaker'', platform_entry ''Spinnaker'' ''kubernetes'' ''yaml'' ''.yml''),
      (''harness'', platform_entry ''Harness'' ''kubernetes'' ''yaml'' ''.yml''),
      (''pulumi-automation'', platform_entry ''Pulumi Automation'' ''infrastructure'' ''python'' ''.py'')]"

text \<open>\<open>d[k]\<close>, which raises \<open>KeyError\<close> for a key that is not there.\<close>

definition getitem :: "(string \<times> 'v) list \<Rightarrow> string \<Rightarrow> 'v io" where
  "getitem d k = (case map_of d k of
                    None \<Rightarrow> raise_io (KeyError k)
                  | Some v \<Rightarrow> return_io v)"

text \<open>\<open>str\<close> of a Python integer.\<close>

fun str_nat :: "nat \<Rightarrow> string" where
  "str_nat n = (if n < 10 then [''0123456789'' ! n]
                else str_nat (n div 10) @ [''0123456789'' ! (n mod 10)])"

definition str :: "int \<Rightarrow> string" where
  "str i = (if i < 0 then CHR ''-'' # str_nat (nat (- i)) else str_nat (nat i))"

text \<open>\<open>sum(1 for f in status["files"].values() if f == s)\<close>\<close>

definition count_status :: "string \<Rightarrow> report \<Rightarrow> int" where
  "count_status s status = int (length (filter (\<lambda>f. f = s) (map snd (files status))))"

text \<open>\<open>[f for f, s in status["files"].items() if s == "missing"]\<close>\<close>

definition missing_files_of :: "report \<Rightarrow> string list" where
  "missing_files_of status = map fst (filter (\<lambda>(f, s). s = ''missing'') (files status))"

text \<open>The loop of lines 188 and 189.\<close>

fun print_missing :: "string list \<Rightarrow> unit io" where
  "print_missing [] = return_io ()"
| "print_missing (f # fs) = bind_io (print (''    - '' @ f)) (\<lambda>_. print_missing fs)"

text \<open>Lines 186 to 191: the listing of the missing files of one platform.\<close>

definition report_missing :: "string list \<Rightarrow> unit io" where
  "report_missing missing_files =
     (if missing_files \<noteq> [] then
        bind_io (print ''  Missing files:'') (\<lambda>_.
        bind_io (print_missing (take 5 missing_files)) (\<lambda>_.
        if int (length missing_files) > 5 then
          print (''    ... and '' @ str (int (length missing_files) - 5) @ '' more'')
        else return_io ()))
      else return_io ())"

text \<open>Lines 174 to 191: what \<open>main\<close> prints for one platform.\<close>

definition report_platform :: "registry \<Rightarrow> string \<Rightarrow> report \<Rightarrow> unit io" where
  "report_platform P platform_key status =
     bind_io (getitem P platform_key) (\<lambda>info.
     bind_io (getitem info ''name'') (\<lambda>platform_name.
     bind_io (print (CHR 0x0A # platform_name @ '' ('' @ platform_key @ '')'')) (\<lambda>_.
     bind_io (print (replicate 80 CHR ''-'')) (\<lambda>_.
     let exists_count = count_status ''exists'' status;
         empty_count = count_status ''empty'' status;
         missing_count = count_status ''missing'' status in
     bind_io (print (''  Exists:  '' @ str exists_count @ '' | Empty:  '' @ str empty_count
                       @ '' | Missing: '' @ str missing_count)) (\<lambda>_.
     report_missing (missing_files_of status))))))"

text \<open>The loop of lines 170 to 191 over the rest of the sorted keys.\<close>

fun main_loop :: "registry \<Rightarrow> string list \<Rightarrow> report list \<Rightarrow> report list io" where
  "main_loop P [] all_statuses = return_io all_statuses"
| "main_loop P (platform_key # rest) all_statuses =
     bind_io (check_platform_structure platform_key) (\<lambda>status.
     bind_io (report_platform P platform_key status) (\<lambda>_.
     main_loop P rest (all_statuses @ [status])))"

text \<open>
  The sums of lines 198 to 203 over all reports, for one status.
\<close>

definition total_status :: "string \<Rightarrow> report list \<Rightarrow> int" where
  "total_status s all_statuses =
     sum_list (map (\<lambda>status. int (length (filter (\<lambda>(f, st). st = s) (files status))))
                   all_statuses)"

text \<open>
  \<open>/\<close> on Python integers gives a float and raises for a zero divisor; the float is
  taken as the real number it stands for.
\<close>

definition truediv :: "int \<Rightarrow> int \<Rightarrow> py_error + real" where
  "truediv a b = (if b = 0 then Inl ZeroDivisionError else Inr (real_of_int a / real_of_int b))"

text \<open>Line 211: \<open>(existing_files / total_files) * 100 if total_files > 0 else 0\<close>\<close>

definition completion_of :: "int \<Rightarrow> int \<Rightarrow> py_error + real" where
  "completion_of existing_files total_files =
     (if total_files > 0 then
        (case truediv existing_files total_files of
           Inl e \<Rightarrow> Inl e
         | Inr q \<Rightarrow> Inr (q * 100))
      else Inr 0)"

definition lift_io :: "py_error + 'a \<Rightarrow> 'a io" where
  "lift_io r w = (r, w)"

text \<open>
  \<open>main\<close>.  The registry is the module's global \<open>PLATFORMS\<close>, taken as an argument;
  \<open>fmt\<close> is the float format \<open>.1f\<close> of the last line, which is the language's.  Printing
  itself is taken not to fail.
\<close>

definition main :: "(real \<Rightarrow> string) \<Rightarrow> registry \<Rightarrow> report list io" where
  "main fmt P =
     bind_io (print (replicate 80 CHR ''='')) (\<lambda>_.
     bind_io (print ''CI/CD Platform Content Status Report'') (\<lambda>_.
     bind_io (print (replicate 80 CHR ''='')) (\<lambda>_.
     bind_io (main_loop P (sort (map fst P)) []) (\<lambda>all_statuses.
     bind_io (print (CHR 0x0A # replicate 80 CHR ''='')) (\<lambda>_.
     bind_io (print ''Summary'') (\<lambda>_.
     bind_io (print (replicate 80 CHR ''='')) (\<lambda>_.
     let total_files = int (length P) * 11;
         existing_files = total_status ''exists'' all_statuses;
         empty_files = total_status ''empty'' all_statuses;
         missing_files = total_status ''missing'' all_statuses in
     bind_io (print (''Total Expected Files:  '' @ str total_files)) (\<lambda>_.
     bind_io (print (''Existing with Content: '' @ str existing_files)) (\<lambda>_.
     bind_io (print (''Empty Files:           '' @ str empty_files)) (\<lambda>_.
     bind_io (print (''Missing Files:         '' @ str missing_files)) (\<lambda>_.
     bind_io (lift_io (completion_of existing_files total_files)) (\<lambda>completion.
     bind_io (print (CHR 0x0A # ''Completion: '' @ fmt completion @ ''%'')) (\<lambda>_.
     return_io all_statuses)))))))))))))"

text \<open>
  The five numbers \<open>main\<close> computes in lines 197 to 211, collected in one value.
\<close>

record summary =
  sum_total_files :: int
  sum_existing_files :: int
  sum_empty_files :: int
  sum_missing_files :: int
  sum_completion :: real

definition summarize :: "registry \<Rightarrow> report list \<Rightarrow> py_error + summary" where
  "summarize P all_statuses =
     (let total_files = int (length P) * 11;
          existing_files = total_status ''exists'' all_statuses;
          empty_files = total_status ''empty'' all_statuses;
          missing_files = total_status ''missing'' all_statuses in
      case completion_of existing_files total_files of
        Inl e \<Rightarrow> Inl e
      | Inr completion \<Rightarrow>
          Inr \<lparr>sum_total_files = total_files, sum_existing_files = existing_files,
               sum_empty_files = empty_files, sum_missing_files = missing_files,
               sum_completion = completion\<rparr>)"

subsection \<open>A file system to run the checker on\<close>

text \<open>
  A tree of regular files and directories, each with the size \<open>stat\<close> reports for it.
  A path is resolved component by component from the root; \<open>..\<close> steps back to the
  parent (the root is its own parent), and a step through anything but a directory or
  to a name that is not there fails.  On such a tree no query raises: \<open>exists\<close> says
  whether the path resolves, and \<open>stat\<close> is asked by the checker only after that.
\<close>

datatype node = File nat | Dir nat "(string \<times> node) list"

fun walk :: "node list \<Rightarrow> node \<Rightarrow> path \<Rightarrow> node option" where
  "walk up cur [] = Some cur"
| "walk up cur (c # cs) =
     (case cur of
        File _ \<Rightarrow> None
      | Dir _ entries \<Rightarrow>
          if c = ''..'' then
            (case up of [] \<Rightarrow> walk [] cur cs | p # ps \<Rightarrow> walk ps p cs)
          else
            (case map_of entries c of
               None \<Rightarrow> None
             | Some n \<Rightarrow> walk (cur # up) n cs))"

definition stat_of :: "node \<Rightarrow> stat_result" where
  "stat_of n = (case n of
                  File sz \<Rightarrow> \<lparr>st_size = sz, st_kind = Regular\<rparr>
                | Dir sz _ \<Rightarrow> \<lparr>st_size = sz, st_kind = Directory\<rparr>)"

definition tree_world :: "node \<Rightarrow> world" where
  "tree_world t =
     \<lparr>fs_exists = (\<lambda>p. Inr (walk [] t p \<noteq> None)),
      fs_stat = (\<lambda>p. case walk [] t p of None \<Rightarrow> Inl 2 | Some n \<Rightarrow> Inr (stat_of n)),
      stdout = []\<rparr>"

subsection \<open>Notions used in the proofs\<close>

text \<open>
  The loop body and the two loops once more, as plain functions of the file system
  answers, and what it means that a run only adds lines to standard output.  The lemmas
  below connect them to the embedding of the script.
\<close>

text \<open>The status the loop body of lines 154 to 159 stores for one path, or the error it raises.\<close>

definition file_status :: "world \<Rightarrow> path \<Rightarrow> py_error + string" where
  "file_status w p =
     (case fs_exists w p of
        Inl n \<Rightarrow> Inl (OSError n)
      | Inr ex \<Rightarrow>
          if ex then
            (case fs_stat w p of
               Inl n \<Rightarrow> Inl (OSError n)
             | Inr st \<Rightarrow> Inr (if st_size st > 0 then ''exists'' else ''empty''))
          else Inr ''missing'')"

text \<open>The statuses of a list of expected files in order, up to the first error.\<close>

fun statuses :: "world \<Rightarrow> path \<Rightarrow> string list \<Rightarrow> py_error + string list" where
  "statuses w d [] = Inr []"
| "statuses w d (f # fs) =
     (case file_status w (joinpath d f) of
        Inl e \<Rightarrow> Inl e
      | Inr s \<Rightarrow> (case statuses w d fs of Inl e \<Rightarrow> Inl e | Inr ss \<Rightarrow> Inr (s # ss)))"

text \<open>The components of the eleven expected files.\<close>

definition expected_parts :: "path list" where
  "expected_parts =
     [[''README.md''],
      [''templates'', ''basic.yml''],
      [''templates'', ''advanced.yml''],
      [''examples'', ''java-spring-boot-example.md''],
      [''examples'', ''python-fastapi-example.md''],
      [''examples'', ''nodejs-express-example.md''],
      [''examples'', ''go-example.md''],
      [''docs'', ''getting-started.md''],
      [''docs'', ''advanced-configuration.md''],
      [''scripts'', ''setup.sh''],
      [''scripts'', ''validate.sh'']]"

text \<open>The status of a path on a tree.\<close>

definition tree_status :: "node \<Rightarrow> path \<Rightarrow> string" where
  "tree_status t p =
     (case walk [] t p of
        None \<Rightarrow> ''missing''
      | Some n \<Rightarrow> if st_size (stat_of n) > 0 then ''exists'' else ''empty'')"

text \<open>The lines a run of \<open>m\<close> from the world \<open>w\<close> adds to standard output.\<close>

definition printed :: "'a io \<Rightarrow> world \<Rightarrow> string list" where
  "printed m w = drop (length (stdout w)) (stdout (snd (m w)))"

text \<open>
  A run that leaves the file system answers as they are, only appends to standard
  output, and whose result and appended lines do not depend on what was printed before.
\<close>

definition pure_printer :: "'a io \<Rightarrow> bool" where
  "pure_printer m \<longleftrightarrow>
     (\<forall>w. \<exists>r ls. \<forall>s. m (w\<lparr>stdout := s\<rparr>) = (r, w\<lparr>stdout := s @ ls\<rparr>))"

text \<open>The reports of a list of platform keys in order, up to the first error.\<close>

fun reports_of :: "world \<Rightarrow> string list \<Rightarrow> py_error + report list" where
  "reports_of w [] = Inr []"
| "reports_of w (k # ks) =
     (case fst (check_platform_structure k w) of
        Inl e \<Rightarrow> Inl e
      | Inr r \<Rightarrow> (case reports_of w ks of Inl e \<Rightarrow> Inl e | Inr rs \<Rightarrow> Inr (r # rs)))"

text \<open>The registry has an entry for the key, and the entry has a \<open>name\<close>.\<close>

definition named :: "registry \<Rightarrow> string \<Rightarrow> bool" where
  "named P k \<longleftrightarrow> (\<exists>info n. map_of P k = Some info \<and> map_of info ''name'' = Some n)"

subsection \<open>Example worlds\<close>

text \<open>
  A tree with one platform directory: \<open>README.md\<close> of 42 bytes and an empty
  \<open>docs/getting-started.md\<close>.
\<close>

definition demo_tree :: node where
  "demo_tree =
     Dir 4096 [(''workspaces'', Dir 4096 [(''AI-prompt'', Dir 4096 [(''pipeline'', Dir 4096
       [(''jenkins'', Dir 4096
          [(''README.md'', File 42),
           (''docs'', Dir 4096 [(''getting-started.md'', File 0)])])])])])]"

text \<open>The report of \<open>jenkins\<close> on that tree.\<close>

definition demo_report :: report where
  "demo_report =
     \<lparr>platform = ''jenkins'', directory_exists = True,
      files =
        [(''README.md'', ''exists''),
         (''templates/basic.yml'', ''missing''),
         (''templates/advanced.yml'', ''missing''),
         (''examples/java-spring-boot-example.md'', ''missing''),
         (''examples/python-fastapi-example.md'', ''missing''),
         (''examples/nodejs-express-example.md'', ''missing''),
         (''examples/go-example.md'', ''missing''),
         (''docs/getting-started.md'', ''empty''),
         (''docs/advanced-configuration.md'', ''missing''),
         (''scripts/setup.sh'', ''missing''),
         (''scripts/validate.sh'', ''missing'')]\<rparr>"

text \<open>A tree where \<open>README.md\<close> of the platform is a directory.\<close>

definition dir_tree :: node where
  "dir_tree =
     Dir 4096 [(''workspaces'', Dir 4096 [(''AI-prompt'', Dir 4096 [(''pipeline'', Dir 4096
       [(''jenkins'', Dir 4096 [(''README.md'', Dir 4096 [])])])])])]"


text \<open>A tree where the path of the platform directory is a regular file of 7 bytes.\<close>

definition file_tree :: node where
  "file_tree =
     Dir 4096 [(''workspaces'', Dir 4096 [(''AI-prompt'', Dir 4096 [(''pipeline'', Dir 4096
       [(''jenkins'', File 7)])])])]"

text \<open>A registry of one platform.\<close>

definition demo_registry :: registry where
  "demo_registry = [(''jenkins'', platform_entry ''Jenkins'' ''selfhosted'' ''groovy'' [])]"

text \<open>
  A format of one decimal to run \<open>main\<close> with: the real number rounded to tenths,
  halves up.  No property below depends on it.
\<close>

definition demo_fmt :: "real \<Rightarrow> string" where
  "demo_fmt x = str (\<lfloor>x * 10 + 1 / 2\<rfloor> div 10) @ ''.'' @ str (\<lfloor>x * 10 + 1 / 2\<rfloor> mod 10)"

text \<open>A report with two missing files.\<close>

definition nearly_done_report :: report where
  "nearly_done_report =
     \<lparr>platform = ''jenkins'', directory_exists = True,
      files =
        [(''README.md'', ''exists''),
         (''templates/basic.yml'', ''exists''),
         (''templates/advanced.yml'', ''missing''),
         (''examples/java-spring-boot-example.md'', ''exists''),
         (''examples/python-fastapi-example.md'', ''exists''),
         (''examples/nodejs-express-example.md'', ''exists''),
         (''examples/go-example.md'', ''exists''),
         (''docs/getting-started.md'', ''empty''),
         (''docs/advanced-configuration.md'', ''exists''),
         (''scripts/setup.sh'', ''exists''),
         (''scripts/validate.sh'', ''missing'')]\<rparr>"




section \<open>Properties\<close>

subsection \<open>The loop over the expected files\<close>

lemma bind_io_Inr: "m w = (Inr a, w') \<Longrightarrow> bind_io m f w = f a w'"
  by (simp add: bind_io_def)

lemma bind_io_Inl: "m w = (Inl e, w') \<Longrightarrow> bind_io m f w = (Inl e, w')"
  by (simp add: bind_io_def)

lemma bind_io_return: "bind_io (return_io a) f = f a"
  by (rule ext) (simp add: bind_io_def return_io_def)

lemma check_files_step:
  "check_files d (f # rest) acc w =
     (case file_status w (joinpath d f) of
        Inl e \<Rightarrow> (Inl e, w)
      | Inr s \<Rightarrow> check_files d rest (dict_set acc f s) w)"
  by (simp add: bind_io_def path_exists_def path_stat_def file_status_def Let_def
           split: sum.splits)

lemma check_files_eq:
  "check_files d fs acc w =
     (case statuses w d fs of
        Inl e \<Rightarrow> Inl e
      | Inr ss \<Rightarrow> Inr (fold (\<lambda>(f, s) a. dict_set a f s) (zip fs ss) acc), w)"
proof (induction fs arbitrary: acc)
  case Nil
  show ?case by (simp add: return_io_def)
next
  case (Cons f rest)
  show ?case
    unfolding check_files_step
    by (simp add: Cons.IH split: sum.splits)
qed

lemma dict_set_fresh: "k \<notin> fst ` set d \<Longrightarrow> dict_set d k v = d @ [(k, v)]"
  by (induction d) auto

lemma fold_dict_set_fresh:
  "distinct fs \<Longrightarrow> set fs \<inter> fst ` set acc = {} \<Longrightarrow> length ss = length fs \<Longrightarrow>
   fold (\<lambda>(f, s) a. dict_set a f s) (zip fs ss) acc = acc @ zip fs ss"
proof (induction fs arbitrary: acc ss)
  case Nil
  then show ?case by simp
next
  case (Cons f rest)
  then obtain s ss' where ss: "ss = s # ss'" by (cases ss) auto
  have fresh: "f \<notin> fst ` set acc" using Cons.prems(2) by auto
  have "set rest \<inter> fst ` set (acc @ [(f, s)]) = {}"
    using Cons.prems(1,2) by auto
  with Cons ss have "fold (\<lambda>(f, s) a. dict_set a f s) (zip rest ss') (acc @ [(f, s)])
     = (acc @ [(f, s)]) @ zip rest ss'"
    by simp
  then show ?case using ss fresh by (simp add: dict_set_fresh)
qed

lemma statuses_length: "statuses w d fs = Inr ss \<Longrightarrow> length ss = length fs"
  by (induction fs arbitrary: ss) (auto split: sum.splits)

lemma statuses_nth:
  "statuses w d fs = Inr ss \<Longrightarrow> i < length fs \<Longrightarrow> file_status w (joinpath d (fs ! i)) = Inr (ss ! i)"
proof (induction fs arbitrary: ss i)
  case Nil
  then show ?case by simp
next
  case (Cons f rest)
  then show ?case by (cases i) (auto split: sum.splits)
qed


lemma statuses_Inr:
  "(\<And>f. f \<in> set fs \<Longrightarrow> file_status w (joinpath d f) = Inr (g f)) \<Longrightarrow> statuses w d fs = Inr (map g fs)"
  by (induction fs) auto


lemma distinct_expected_files: "distinct expected_files"
  by (simp add: expected_files_def)

lemma length_expected_files: "length expected_files = 11"
  by (simp add: expected_files_def)

lemma check_platform_structure_eq:
  "check_platform_structure k w =
     (case fs_exists w (platform_dir_of k) of
        Inl n \<Rightarrow> Inl (OSError n)
      | Inr d \<Rightarrow>
          (case statuses w (platform_dir_of k) expected_files of
             Inl e \<Rightarrow> Inl e
           | Inr ss \<Rightarrow> Inr \<lparr>platform = k, directory_exists = d, files = zip expected_files ss\<rparr>), w)"
proof -
  have z: "fold (\<lambda>(f, s) a. dict_set a f s) (zip expected_files ss) [] = zip expected_files ss"
    if "statuses w (platform_dir_of k) expected_files = Inr ss" for ss
    using fold_dict_set_fresh [OF distinct_expected_files, of "[]" ss] statuses_length [OF that]
    by simp
  show ?thesis
    by (simp add: check_platform_structure_def Let_def bind_io_def path_exists_def check_files_eq
          return_io_def z split: sum.splits)
qed

subsection \<open>Paths\<close>

lemma split_slash_not_Nil: "split_slash s \<noteq> []"
  by (induction s) (auto split: list.splits)

lemma split_slash_append:
  "split_slash (xs @ CHR ''/'' # ys) = split_slash xs @ split_slash ys"
proof (induction xs)
  case Nil
  show ?case by simp
next
  case (Cons c cs)
  show ?case
  proof (cases "split_slash cs")
    case Nil
    then show ?thesis using split_slash_not_Nil by blast
  next
    case (Cons x xs')
    then show ?thesis using Cons.IH by simp
  qed
qed

lemma platform_dir_of_parts:
  "platform_dir_of k = [''workspaces'', ''AI-prompt'', ''pipeline''] @ path_parts k"
proof -
  have "''/workspaces/AI-prompt/pipeline/'' @ k = ''/workspaces/AI-prompt/pipeline'' @ CHR ''/'' # k"
    by simp
  then have "split_slash (''/workspaces/AI-prompt/pipeline/'' @ k)
      = split_slash ''/workspaces/AI-prompt/pipeline'' @ split_slash k"
    by (simp only: split_slash_append)
  then show ?thesis
    by (simp add: platform_dir_of_def Path_def path_parts_def)
qed

lemma path_parts_expected: "map path_parts expected_files = expected_parts"
  by (simp add: expected_files_def expected_parts_def path_parts_def)

lemma joinpath_expected:
  "f \<in> set expected_files \<Longrightarrow> joinpath d f = d @ path_parts f"
  by (auto simp add: expected_files_def joinpath_def)

lemma map_joinpath_expected: "map (joinpath d) expected_files = map ((@) d) expected_parts"
proof -
  have "map (joinpath d) expected_files = map (\<lambda>f. d @ path_parts f) expected_files"
    by (rule map_cong) (simp_all add: joinpath_expected)
  also have "\<dots> = map ((@) d) (map path_parts expected_files)"
    by simp
  finally show ?thesis by (simp only: path_parts_expected)
qed

subsection \<open>The checker on a tree\<close>

lemma file_status_tree: "file_status (tree_world t) p = Inr (tree_status t p)"
  by (simp add: file_status_def tree_world_def tree_status_def split: option.splits)

lemma statuses_tree:
  "statuses (tree_world t) d fs = Inr (map (\<lambda>f. tree_status t (joinpath d f)) fs)"
  by (rule statuses_Inr) (simp add: file_status_tree)

lemma check_tree:
  "check_platform_structure k (tree_world t) =
     (Inr \<lparr>platform = k, directory_exists = (walk [] t (platform_dir_of k) \<noteq> None),
           files = zip expected_files
                     (map (tree_status t) (map ((@) (platform_dir_of k)) expected_parts))\<rparr>,
      tree_world t)"
proof -
  have "map (\<lambda>f. tree_status t (joinpath (platform_dir_of k) f)) expected_files
      = map (tree_status t) (map (joinpath (platform_dir_of k)) expected_files)"
    by simp
  also have "\<dots> = map (tree_status t) (map ((@) (platform_dir_of k)) expected_parts)"
    by (simp only: map_joinpath_expected)
  finally have m: "map (\<lambda>f. tree_status t (joinpath (platform_dir_of k) f)) expected_files
      = map (tree_status t) (map ((@) (platform_dir_of k)) expected_parts)" .
  have e: "fs_exists (tree_world t) (platform_dir_of k) = Inr (walk [] t (platform_dir_of k) \<noteq> None)"
    by (simp add: tree_world_def)
  show ?thesis
    unfolding check_platform_structure_eq statuses_tree m e by simp
qed

lemma jenkins_dir: "platform_dir_of ''jenkins'' = [''workspaces'', ''AI-prompt'', ''pipeline'', ''jenkins'']"
  by (simp add: platform_dir_of_parts path_parts_def)

lemma check_demo:
  "check_platform_structure ''jenkins'' (tree_world demo_tree) = (Inr demo_report, tree_world demo_tree)"
  unfolding check_tree jenkins_dir
  by (simp add: expected_parts_def expected_files_def tree_status_def demo_tree_def stat_of_def
        demo_report_def)

subsection \<open>The report of one platform\<close>

lemma check_InrD:
  assumes "check_platform_structure k w = (Inr r, w')"
  obtains d ss where "w' = w" "fs_exists w (platform_dir_of k) = Inr d"
    "statuses w (platform_dir_of k) expected_files = Inr ss"
    "r = \<lparr>platform = k, directory_exists = d, files = zip expected_files ss\<rparr>"
  using assms unfolding check_platform_structure_eq
  by (auto split: sum.splits)

lemma check_world: "snd (check_platform_structure k w) = w"
  by (simp add: check_platform_structure_eq)

lemma file_status_values:
  "file_status w p = Inr s \<Longrightarrow> s = ''exists'' \<or> s = ''empty'' \<or> s = ''missing''"
  by (auto simp: file_status_def split: sum.splits if_splits)

lemma statuses_values:
  "statuses w d fs = Inr ss \<Longrightarrow> set ss \<subseteq> {''exists'', ''empty'', ''missing''}"
proof (induction fs arbitrary: ss)
  case Nil
  then show ?case by simp
next
  case (Cons f rest)
  from Cons.prems obtain s ss' where
    s: "file_status w (joinpath d f) = Inr s" and r: "statuses w d rest = Inr ss'" and "ss = s # ss'"
    by (auto split: sum.splits)
  with Cons.IH [OF r] file_status_values [OF s] show ?case by auto
qed

lemma statuses_lookup:
  assumes "statuses w d fs = Inr ss" "distinct fs" "f \<in> set fs"
  shows "\<exists>s. file_status w (joinpath d f) = Inr s \<and> map_of (zip fs ss) f = Some s"
proof -
  from assms(3) obtain i where i: "i < length fs" "fs ! i = f"
    by (auto simp: in_set_conv_nth)
  have len: "length fs = length ss" using statuses_length [OF assms(1)] by simp
  have "map_of (zip fs ss) (fs ! i) = Some (ss ! i)"
    using map_of_zip_nth [OF len assms(2)] i(1) len by simp
  moreover have "file_status w (joinpath d (fs ! i)) = Inr (ss ! i)"
    using statuses_nth [OF assms(1) i(1)] .
  ultimately show ?thesis using i(2) by auto
qed

lemma files_lookup:
  assumes "check_platform_structure k w = (Inr r, w')" "f \<in> set expected_files"
  shows "\<exists>s. file_status w (joinpath (platform_dir_of k) f) = Inr s \<and> map_of (files r) f = Some s"
proof -
  from assms(1) obtain d ss where
    ss: "statuses w (platform_dir_of k) expected_files = Inr ss"
    and r: "r = \<lparr>platform = k, directory_exists = d, files = zip expected_files ss\<rparr>"
    by (rule check_InrD)
  from statuses_lookup [OF ss distinct_expected_files assms(2)] r show ?thesis by simp
qed

text \<open>
  \<^bold>\<open>Claim C1.\<close>  For every expected relative path that \<open>check_platform_structure\<close>
  checks, the status follows the classification rule: if the path
  \<open><root>/<platformId>/<path>\<close> exists with non-zero size the status is \<open>exists\<close>; if it
  exists with size 0 the status is \<open>empty\<close>; if it does not exist the status is
  \<open>missing\<close>.

  Here \<open>r\<close> is the report of a run that returns, \<open>file_path\<close> one of the expected files
  and \<open>full_path\<close> the path the loop builds for it.
\<close>

theorem classification_rule:
  assumes "check_platform_structure platform_key w = (Inr r, w')"
    and "file_path \<in> set expected_files"
    and "full_path = joinpath (platform_dir_of platform_key) file_path"
  shows "(fs_exists w full_path = Inr True \<and> fs_stat w full_path = Inr st \<and> 0 < st_size st
            \<longrightarrow> map_of (files r) file_path = Some ''exists'')
       \<and> (fs_exists w full_path = Inr True \<and> fs_stat w full_path = Inr st \<and> st_size st = 0
            \<longrightarrow> map_of (files r) file_path = Some ''empty'')
       \<and> (fs_exists w full_path = Inr False
            \<longrightarrow> map_of (files r) file_path = Some ''missing'')"
proof -
  from files_lookup [OF assms(1,2)] assms(3) obtain s where
    s: "file_status w full_path = Inr s" and m: "map_of (files r) file_path = Some s"
    by auto
  from s show ?thesis unfolding m
    by (auto simp: file_status_def split: sum.splits if_splits)
qed

lemma demo_paths:
  "joinpath (platform_dir_of ''jenkins'') ''README.md''
     = [''workspaces'', ''AI-prompt'', ''pipeline'', ''jenkins'', ''README.md'']"
  "joinpath (platform_dir_of ''jenkins'') ''docs/getting-started.md''
     = [''workspaces'', ''AI-prompt'', ''pipeline'', ''jenkins'', ''docs'', ''getting-started.md'']"
  "joinpath (platform_dir_of ''jenkins'') ''scripts/setup.sh''
     = [''workspaces'', ''AI-prompt'', ''pipeline'', ''jenkins'', ''scripts'', ''setup.sh'']"
  by (simp_all add: jenkins_dir joinpath_def path_parts_def)

text \<open>
  An instance on the example tree, one path for each of the three cases.
\<close>

theorem classification_rule_witness:
  "check_platform_structure ''jenkins'' (tree_world demo_tree) = (Inr demo_report, tree_world demo_tree)
   \<and> fs_exists (tree_world demo_tree) (joinpath (platform_dir_of ''jenkins'') ''README.md'') = Inr True
   \<and> fs_stat (tree_world demo_tree) (joinpath (platform_dir_of ''jenkins'') ''README.md'')
        = Inr \<lparr>st_size = 42, st_kind = Regular\<rparr>
   \<and> map_of (files demo_report) ''README.md'' = Some ''exists''
   \<and> fs_exists (tree_world demo_tree) (joinpath (platform_dir_of ''jenkins'') ''docs/getting-started.md'') = Inr True
   \<and> fs_stat (tree_world demo_tree) (joinpath (platform_dir_of ''jenkins'') ''docs/getting-started.md'')
        = Inr \<lparr>st_size = 0, st_kind = Regular\<rparr>
   \<and> map_of (files demo_report) ''docs/getting-started.md'' = Some ''empty''
   \<and> fs_exists (tree_world demo_tree) (joinpath (platform_dir_of ''jenkins'') ''scripts/setup.sh'') = Inr False
   \<and> map_of (files demo_report) ''scripts/setup.sh'' = Some ''missing''"
proof -
  have e1: "fs_exists (tree_world demo_tree) (joinpath (platform_dir_of ''jenkins'') ''README.md'') = Inr True"
    and s1: "fs_stat (tree_world demo_tree) (joinpath (platform_dir_of ''jenkins'') ''README.md'')
        = Inr \<lparr>st_size = 42, st_kind = Regular\<rparr>"
    and e2: "fs_exists (tree_world demo_tree) (joinpath (platform_dir_of ''jenkins'') ''docs/getting-started.md'') = Inr True"
    and s2: "fs_stat (tree_world demo_tree) (joinpath (platform_dir_of ''jenkins'') ''docs/getting-started.md'')
        = Inr \<lparr>st_size = 0, st_kind = Regular\<rparr>"
    and e3: "fs_exists (tree_world demo_tree) (joinpath (platform_dir_of ''jenkins'') ''scripts/setup.sh'') = Inr False"
    unfolding demo_paths by (simp_all add: tree_world_def demo_tree_def stat_of_def)
  have m1: "''README.md'' \<in> set expected_files"
    and m2: "''docs/getting-started.md'' \<in> set expected_files"
    and m3: "''scripts/setup.sh'' \<in> set expected_files"
    by (simp_all add: expected_files_def)
  have "map_of (files demo_report) ''README.md'' = Some ''exists''"
    using classification_rule [OF check_demo m1 refl, of "\<lparr>st_size = 42, st_kind = Regular\<rparr>"] e1 s1
    by simp
  moreover have "map_of (files demo_report) ''docs/getting-started.md'' = Some ''empty''"
    using classification_rule [OF check_demo m2 refl, of "\<lparr>st_size = 0, st_kind = Regular\<rparr>"] e2 s2
    by simp
  moreover have "map_of (files demo_report) ''scripts/setup.sh'' = Some ''missing''"
    using classification_rule [OF check_demo m3 refl] e3
    by simp
  ultimately show ?thesis using check_demo e1 s1 e2 s2 e3 by simp
qed

text \<open>
  \<^bold>\<open>Claim C2.\<close>  For every platform identifier, \<open>check_platform_structure\<close> returns a
  report with exactly one status entry for each expected path, none omitted and none
  twice, each status one of \<open>exists\<close>, \<open>empty\<close>, \<open>missing\<close>, and the entries are in the
  order of the list of expected paths.

  The function has its list of expected paths built in; the first part is about that
  list.  The second part is about the loop itself, for any list \<open>F\<close> of distinct paths.
\<close>

theorem report_entries:
  "(check_platform_structure platform_key w = (Inr r, w') \<longrightarrow>
      length (files r) = length expected_files
      \<and> map fst (files r) = expected_files
      \<and> distinct (map fst (files r))
      \<and> (\<forall>s \<in> set (map snd (files r)). s = ''exists'' \<or> s = ''empty'' \<or> s = ''missing''))
   \<and> (distinct F \<and> check_files d F [] w = (Inr res, w') \<longrightarrow>
      length res = length F
      \<and> map fst res = F
      \<and> (\<forall>s \<in> set (map snd res). s = ''exists'' \<or> s = ''empty'' \<or> s = ''missing''))"
proof (intro conjI impI)
  assume a: "check_platform_structure platform_key w = (Inr r, w')"
  from a obtain dx ss where
    ss: "statuses w (platform_dir_of platform_key) expected_files = Inr ss"
    and r: "r = \<lparr>platform = platform_key, directory_exists = dx, files = zip expected_files ss\<rparr>"
    by (rule check_InrD)
  have len: "length ss = length expected_files" using statuses_length [OF ss] .
  show "length (files r) = length expected_files" using r len by simp
  show k: "map fst (files r) = expected_files" using r len by simp
  show "distinct (map fst (files r))" unfolding k by (rule distinct_expected_files)
  show "\<forall>s \<in> set (map snd (files r)). s = ''exists'' \<or> s = ''empty'' \<or> s = ''missing''"
    using statuses_values [OF ss] r len by auto
next
  assume b: "distinct F \<and> check_files d F [] w = (Inr res, w')"
  then obtain ss where ss: "statuses w d F = Inr ss"
    and res: "res = fold (\<lambda>(f, s) a. dict_set a f s) (zip F ss) []"
    unfolding check_files_eq by (auto split: sum.splits)
  have len: "length ss = length F" using statuses_length [OF ss] .
  have z: "res = zip F ss"
    using fold_dict_set_fresh [of F "[]" ss] b len res by simp
  show "length res = length F" using z len by simp
  show "map fst res = F" using z len by simp
  show "\<forall>s \<in> set (map snd res). s = ''exists'' \<or> s = ''empty'' \<or> s = ''missing''"
    using statuses_values [OF ss] z len by auto
qed

lemma check_files_demo:
  "check_files (platform_dir_of ''jenkins'') [''README.md'', ''scripts/setup.sh''] [] (tree_world demo_tree)
     = (Inr [(''README.md'', ''exists''), (''scripts/setup.sh'', ''missing'')], tree_world demo_tree)"
  unfolding check_files_eq statuses_tree
  by (simp add: demo_paths tree_status_def demo_tree_def stat_of_def)

text \<open>
  An instance: the report of \<open>jenkins\<close> on the example tree, and the loop over two paths.
\<close>

theorem report_entries_witness:
  "check_platform_structure ''jenkins'' (tree_world demo_tree) = (Inr demo_report, tree_world demo_tree)
   \<and> length (files demo_report) = 11
   \<and> map fst (files demo_report) = expected_files
   \<and> distinct (map fst (files demo_report))
   \<and> set (map snd (files demo_report)) = {''exists'', ''empty'', ''missing''}
   \<and> distinct [''README.md'', ''scripts/setup.sh'']
   \<and> check_files (platform_dir_of ''jenkins'') [''README.md'', ''scripts/setup.sh''] [] (tree_world demo_tree)
       = (Inr [(''README.md'', ''exists''), (''scripts/setup.sh'', ''missing'')], tree_world demo_tree)
   \<and> map fst [(''README.md'', ''exists''), (''scripts/setup.sh'', ''missing'')]
       = [''README.md'', ''scripts/setup.sh'']"
proof -
  have d: "distinct [''README.md'', ''scripts/setup.sh'']"
    by simp
  from report_entries [THEN conjunct1, rule_format, OF check_demo]
  have 1: "length (files demo_report) = length expected_files
      \<and> map fst (files demo_report) = expected_files
      \<and> distinct (map fst (files demo_report))
      \<and> (\<forall>s \<in> set (map snd (files demo_report)). s = ''exists'' \<or> s = ''empty'' \<or> s = ''missing'')" .
  from report_entries [THEN conjunct2, rule_format, OF conjI, OF d check_files_demo]
  have 2: "map fst [(''README.md'', ''exists''), (''scripts/setup.sh'', ''missing'')]
       = [''README.md'', ''scripts/setup.sh'']"
    by blast
  from 1 have 3: "length (files demo_report) = 11"
    by (simp only: length_expected_files)
  have 4: "set (map snd (files demo_report)) = {''exists'', ''empty'', ''missing''}"
    by (auto simp add: demo_report_def)
  from 1 2 3 4 d check_demo check_files_demo show ?thesis
    by blast
qed

text \<open>
  \<^bold>\<open>Claim C7\<close>, as amended.  The status \<open>exists\<close> is stored exactly when the path exists,
  whatever kind of entry it is, and \<open>stat\<close> reports a size above 0 for it; \<open>empty\<close> exactly
  when it exists and the size is 0; \<open>missing\<close> exactly when it does not exist.  The kind
  of the entry, \<open>st_kind\<close>, is not looked at.
\<close>

theorem status_iff_size:
  assumes "check_platform_structure platform_key w = (Inr r, w')"
    and "file_path \<in> set expected_files"
    and "full_path = joinpath (platform_dir_of platform_key) file_path"
  shows "(map_of (files r) file_path = Some ''exists'' \<longleftrightarrow>
            fs_exists w full_path = Inr True \<and> (\<exists>st. fs_stat w full_path = Inr st \<and> 0 < st_size st))
       \<and> (map_of (files r) file_path = Some ''empty'' \<longleftrightarrow>
            fs_exists w full_path = Inr True \<and> (\<exists>st. fs_stat w full_path = Inr st \<and> st_size st = 0))
       \<and> (map_of (files r) file_path = Some ''missing'' \<longleftrightarrow> fs_exists w full_path = Inr False)"
proof -
  from files_lookup [OF assms(1,2)] assms(3) obtain s where
    s: "file_status w full_path = Inr s" and m: "map_of (files r) file_path = Some s"
    by auto
  from s show ?thesis unfolding m
    by (auto simp: file_status_def split: sum.splits if_splits)
qed

text \<open>
  An instance: \<open>README.md\<close> on the example tree.
\<close>

theorem status_iff_size_witness:
  "check_platform_structure ''jenkins'' (tree_world demo_tree) = (Inr demo_report, tree_world demo_tree)
   \<and> ''README.md'' \<in> set expected_files
   \<and> map_of (files demo_report) ''README.md'' = Some ''exists''
   \<and> fs_exists (tree_world demo_tree) (joinpath (platform_dir_of ''jenkins'') ''README.md'') = Inr True
   \<and> (\<exists>st. fs_stat (tree_world demo_tree) (joinpath (platform_dir_of ''jenkins'') ''README.md'') = Inr st
          \<and> 0 < st_size st)"
proof -
  have m: "''README.md'' \<in> set expected_files"
    by (simp add: expected_files_def)
  have x: "map_of (files demo_report) ''README.md'' = Some ''exists''"
    by (simp add: demo_report_def)
  from status_iff_size [OF check_demo m refl] x check_demo m show ?thesis
    by simp
qed

text \<open>
  Against claim C7 as it is stated: on the tree where \<open>README.md\<close> is a directory, for
  which \<open>stat\<close> reports 4096 bytes, the checker stores \<open>exists\<close> for it.
\<close>

theorem directory_counted_as_exists:
  "fs_stat (tree_world dir_tree) (joinpath (platform_dir_of ''jenkins'') ''README.md'')
     = Inr \<lparr>st_size = 4096, st_kind = Directory\<rparr>
   \<and> check_platform_structure ''jenkins'' (tree_world dir_tree)
     = (Inr \<lparr>platform = ''jenkins'', directory_exists = True,
             files =
               [(''README.md'', ''exists''),
                (''templates/basic.yml'', ''missing''),
                (''templates/advanced.yml'', ''missing''),
                (''examples/java-spring-boot-example.md'', ''missing''),
                (''examples/python-fastapi-example.md'', ''missing''),
                (''examples/nodejs-express-example.md'', ''missing''),
                (''examples/go-example.md'', ''missing''),
                (''docs/getting-started.md'', ''missing''),
                (''docs/advanced-configuration.md'', ''missing''),
                (''scripts/setup.sh'', ''missing''),
                (''scripts/validate.sh'', ''missing'')]\<rparr>,
        tree_world dir_tree)"
proof
  show "fs_stat (tree_world dir_tree) (joinpath (platform_dir_of ''jenkins'') ''README.md'')
     = Inr \<lparr>st_size = 4096, st_kind = Directory\<rparr>"
    unfolding demo_paths by (simp add: tree_world_def dir_tree_def stat_of_def)
  show "check_platform_structure ''jenkins'' (tree_world dir_tree)
     = (Inr \<lparr>platform = ''jenkins'', directory_exists = True,
             files =
               [(''README.md'', ''exists''),
                (''templates/basic.yml'', ''missing''),
                (''templates/advanced.yml'', ''missing''),
                (''examples/java-spring-boot-example.md'', ''missing''),
                (''examples/python-fastapi-example.md'', ''missing''),
                (''examples/nodejs-express-example.md'', ''missing''),
                (''examples/go-example.md'', ''missing''),
                (''docs/getting-started.md'', ''missing''),
                (''docs/advanced-configuration.md'', ''missing''),
                (''scripts/setup.sh'', ''missing''),
                (''scripts/validate.sh'', ''missing'')]\<rparr>,
        tree_world dir_tree)"
    unfolding check_tree jenkins_dir
    by (simp add: expected_parts_def expected_files_def tree_status_def dir_tree_def stat_of_def)
qed

subsection \<open>Absent paths\<close>

lemma walk_append_None: "walk up cur p = None \<Longrightarrow> walk up cur (p @ q) = None"
proof (induction p arbitrary: up cur)
  case Nil
  then show ?case by simp
next
  case (Cons c cs)
  then show ?case
    by (auto split: node.splits list.splits option.splits if_splits)
qed

lemma statuses_missing:
  assumes "\<And>f. f \<in> set fs \<Longrightarrow> fs_exists w (joinpath d f) = Inr False"
  shows "statuses w d fs = Inr (map (\<lambda>f. ''missing'') fs)"
  by (rule statuses_Inr) (simp add: file_status_def assms)

lemma zip_map_const: "zip fs (map (\<lambda>f. c) fs) = map (\<lambda>f. (f, c)) fs"
  by (induction fs) auto

text \<open>
  \<^bold>\<open>Claim C4.\<close>  \<open>check_platform_structure\<close> raises no exception when an expected path
  is absent.  In particular, for a platform whose directory does not exist at all it
  still returns a complete report in which every expected path is \<open>missing\<close>.

  First on any tree, where a path below a directory that does not resolve does not
  resolve either; then for any file system that answers "not there" for the directory
  and for every expected path.
\<close>

theorem absent_is_missing:
  "(\<exists>r. check_platform_structure platform_key (tree_world t) = (Inr r, tree_world t)
        \<and> (walk [] t (platform_dir_of platform_key) = None \<longrightarrow>
             r = \<lparr>platform = platform_key, directory_exists = False,
                  files = map (\<lambda>f. (f, ''missing'')) expected_files\<rparr>))
   \<and> (fs_exists w (platform_dir_of platform_key) = Inr False
        \<and> (\<forall>f \<in> set expected_files.
              fs_exists w (joinpath (platform_dir_of platform_key) f) = Inr False)
      \<longrightarrow> check_platform_structure platform_key w
            = (Inr \<lparr>platform = platform_key, directory_exists = False,
                    files = map (\<lambda>f. (f, ''missing'')) expected_files\<rparr>, w))"
proof (intro conjI impI)
  let ?d = "platform_dir_of platform_key"
  have "map (tree_status t) (map ((@) ?d) expected_parts) = map (\<lambda>f. ''missing'') expected_files"
    if "walk [] t ?d = None"
  proof -
    have "tree_status t (?d @ q) = ''missing''" for q
      using walk_append_None [OF that] by (simp add: tree_status_def)
    then have "map (tree_status t) (map ((@) ?d) expected_parts) = map (\<lambda>q. ''missing'') expected_parts"
      by simp
    also have "\<dots> = map (\<lambda>f. ''missing'') (map path_parts expected_files)"
      by (simp only: path_parts_expected)
    finally show ?thesis by simp
  qed
  then show "\<exists>r. check_platform_structure platform_key (tree_world t) = (Inr r, tree_world t)
        \<and> (walk [] t ?d = None \<longrightarrow>
             r = \<lparr>platform = platform_key, directory_exists = False,
                  files = map (\<lambda>f. (f, ''missing'')) expected_files\<rparr>)"
    unfolding check_tree by (simp add: zip_map_const)
next
  assume a: "fs_exists w (platform_dir_of platform_key) = Inr False
        \<and> (\<forall>f \<in> set expected_files.
              fs_exists w (joinpath (platform_dir_of platform_key) f) = Inr False)"
  then have "statuses w (platform_dir_of platform_key) expected_files
      = Inr (map (\<lambda>f. ''missing'') expected_files)"
    by (intro statuses_missing) simp
  with a show "check_platform_structure platform_key w
            = (Inr \<lparr>platform = platform_key, directory_exists = False,
                    files = map (\<lambda>f. (f, ''missing'')) expected_files\<rparr>, w)"
    unfolding check_platform_structure_eq by (simp add: zip_map_const)
qed

text \<open>
  An instance: the example tree has no directory for \<open>gocd\<close>.
\<close>

theorem absent_is_missing_witness:
  "walk [] demo_tree (platform_dir_of ''gocd'') = None
   \<and> fs_exists (tree_world demo_tree) (platform_dir_of ''gocd'') = Inr False
   \<and> map (\<lambda>f. fs_exists (tree_world demo_tree) (joinpath (platform_dir_of ''gocd'') f)) expected_files
       = map (\<lambda>f. Inr False) expected_files
   \<and> check_platform_structure ''gocd'' (tree_world demo_tree)
       = (Inr \<lparr>platform = ''gocd'', directory_exists = False,
               files = map (\<lambda>f. (f, ''missing'')) expected_files\<rparr>, tree_world demo_tree)"
proof -
  have n: "walk [] demo_tree (platform_dir_of ''gocd'') = None"
    by (simp add: platform_dir_of_parts path_parts_def demo_tree_def)
  have d: "fs_exists (tree_world demo_tree) (platform_dir_of ''gocd'') = Inr False"
    using n by (simp add: tree_world_def)
  have f: "\<forall>f \<in> set expected_files.
         fs_exists (tree_world demo_tree) (joinpath (platform_dir_of ''gocd'') f) = Inr False"
    using walk_append_None [OF n] by (simp add: tree_world_def joinpath_expected)
  from absent_is_missing [THEN conjunct1, of "''gocd''" demo_tree] n
  have 1: "check_platform_structure ''gocd'' (tree_world demo_tree)
       = (Inr \<lparr>platform = ''gocd'', directory_exists = False,
               files = map (\<lambda>f. (f, ''missing'')) expected_files\<rparr>, tree_world demo_tree)"
    by auto
  from absent_is_missing [THEN conjunct2, of "tree_world demo_tree" "''gocd''"] d f
  have "check_platform_structure ''gocd'' (tree_world demo_tree)
       = (Inr \<lparr>platform = ''gocd'', directory_exists = False,
               files = map (\<lambda>f. (f, ''missing'')) expected_files\<rparr>, tree_world demo_tree)"
    by blast
  moreover have "map (\<lambda>f. fs_exists (tree_world demo_tree) (joinpath (platform_dir_of ''gocd'') f)) expected_files
       = map (\<lambda>f. Inr False) expected_files"
    using f by simp
  ultimately show ?thesis using n d by blast
qed

subsection \<open>What the checker reads\<close>

lemma file_status_cong:
  "fs_exists w1 p = fs_exists w2 p \<Longrightarrow> fs_stat w1 p = fs_stat w2 p \<Longrightarrow>
   file_status w1 p = file_status w2 p"
  by (simp add: file_status_def split: sum.splits)

lemma statuses_cong:
  "(\<And>f. f \<in> set fs \<Longrightarrow> file_status w1 (joinpath d f) = file_status w2 (joinpath d f)) \<Longrightarrow>
   statuses w1 d fs = statuses w2 d fs"
  by (induction fs) (auto split: sum.splits)


lemma status_under_dir:
  assumes "check_platform_structure k w = (Inr r, w')" and "f \<in> set expected_files"
    and "p = [''workspaces'', ''AI-prompt'', ''pipeline''] @ path_parts k @ path_parts f"
  shows "(map_of (files r) f = Some ''exists'' \<longleftrightarrow>
            fs_exists w p = Inr True \<and> (\<exists>st. fs_stat w p = Inr st \<and> 0 < st_size st))
       \<and> (map_of (files r) f = Some ''empty'' \<longleftrightarrow>
            fs_exists w p = Inr True \<and> (\<exists>st. fs_stat w p = Inr st \<and> st_size st = 0))
       \<and> (map_of (files r) f = Some ''missing'' \<longleftrightarrow> fs_exists w p = Inr False)"
proof -
  have "joinpath (platform_dir_of k) f = p"
    using assms(2,3) by (simp add: joinpath_expected platform_dir_of_parts)
  with files_lookup [OF assms(1,2)] obtain s where
    s: "file_status w p = Inr s" and m: "map_of (files r) f = Some s"
    by auto
  from s show ?thesis unfolding m
    by (auto simp: file_status_def split: sum.splits if_splits)
qed

lemma check_depends:
  assumes "fs_exists w1 (platform_dir_of k) = fs_exists w2 (platform_dir_of k)"
    and "\<And>f. f \<in> set expected_files \<Longrightarrow>
           fs_exists w1 (joinpath (platform_dir_of k) f) = fs_exists w2 (joinpath (platform_dir_of k) f)
           \<and> fs_stat w1 (joinpath (platform_dir_of k) f) = fs_stat w2 (joinpath (platform_dir_of k) f)"
  shows "fst (check_platform_structure k w1) = fst (check_platform_structure k w2)"
proof -
  have "statuses w1 (platform_dir_of k) expected_files = statuses w2 (platform_dir_of k) expected_files"
    by (rule statuses_cong, rule file_status_cong) (simp_all add: assms(2))
  with assms(1) show ?thesis
    by (simp add: check_platform_structure_eq split: sum.splits)
qed

text \<open>
  \<^bold>\<open>Claim C10\<close>, as amended.  \<open>check_platform_structure\<close> takes the platform key only.
  It resolves a built-in list of eleven paths below the fixed directory
  \<open>/workspaces/AI-prompt/pipeline/<platformId>\<close>: the status of each is decided by the
  answers for that path below that directory.  The report also holds \<open>directory_exists\<close>,
  which is \<open>True\<close> exactly when \<open>Path.exists()\<close> answers \<open>True\<close> for the platform path,
  whatever kind of entry is there; no count uses this field.

  The report depends on the file system only through the answers for the platform
  directory and the eleven paths below it.
\<close>

theorem fixed_directory_and_list:
  "length expected_files = 11
   \<and> platform_dir_of platform_key = [''workspaces'', ''AI-prompt'', ''pipeline''] @ path_parts platform_key
   \<and> (\<forall>f \<in> set expected_files.
         joinpath (platform_dir_of platform_key) f = platform_dir_of platform_key @ path_parts f)
   \<and> (check_platform_structure platform_key w = (Inr r, w') \<longrightarrow>
         platform r = platform_key
         \<and> directory_exists r = (fs_exists w (platform_dir_of platform_key) = Inr True)
         \<and> map fst (files r) = expected_files
         \<and> (\<forall>f \<in> set expected_files.
               (map_of (files r) f = Some ''exists'' \<longleftrightarrow>
                  fs_exists w ([''workspaces'', ''AI-prompt'', ''pipeline'']
                               @ path_parts platform_key @ path_parts f) = Inr True
                  \<and> (\<exists>st. fs_stat w ([''workspaces'', ''AI-prompt'', ''pipeline'']
                                      @ path_parts platform_key @ path_parts f) = Inr st
                          \<and> 0 < st_size st))
             \<and> (map_of (files r) f = Some ''empty'' \<longleftrightarrow>
                  fs_exists w ([''workspaces'', ''AI-prompt'', ''pipeline'']
                               @ path_parts platform_key @ path_parts f) = Inr True
                  \<and> (\<exists>st. fs_stat w ([''workspaces'', ''AI-prompt'', ''pipeline'']
                                      @ path_parts platform_key @ path_parts f) = Inr st
                          \<and> st_size st = 0))
             \<and> (map_of (files r) f = Some ''missing'' \<longleftrightarrow>
                  fs_exists w ([''workspaces'', ''AI-prompt'', ''pipeline'']
                               @ path_parts platform_key @ path_parts f) = Inr False)))
   \<and> (fs_exists w1 (platform_dir_of platform_key) = fs_exists w2 (platform_dir_of platform_key)
        \<and> (\<forall>f \<in> set expected_files.
              fs_exists w1 (joinpath (platform_dir_of platform_key) f)
                = fs_exists w2 (joinpath (platform_dir_of platform_key) f)
              \<and> fs_stat w1 (joinpath (platform_dir_of platform_key) f)
                = fs_stat w2 (joinpath (platform_dir_of platform_key) f))
      \<longrightarrow> fst (check_platform_structure platform_key w1)
            = fst (check_platform_structure platform_key w2))
   \<and> count_status s (r\<lparr>directory_exists := b\<rparr>) = count_status s r
   \<and> missing_files_of (r\<lparr>directory_exists := b\<rparr>) = missing_files_of r
   \<and> total_status s (map (\<lambda>x. x\<lparr>directory_exists := b\<rparr>) rs) = total_status s rs"
proof -
  have 1: "length expected_files = 11" by (rule length_expected_files)
  have 2: "platform_dir_of platform_key
      = [''workspaces'', ''AI-prompt'', ''pipeline''] @ path_parts platform_key"
    by (rule platform_dir_of_parts)
  have 3: "\<forall>f \<in> set expected_files.
         joinpath (platform_dir_of platform_key) f = platform_dir_of platform_key @ path_parts f"
    by (simp add: joinpath_expected)
  have 4: "platform r = platform_key
         \<and> directory_exists r = (fs_exists w (platform_dir_of platform_key) = Inr True)
         \<and> map fst (files r) = expected_files"
    if a: "check_platform_structure platform_key w = (Inr r, w')"
  proof -
    from a obtain dx ss where
      d: "fs_exists w (platform_dir_of platform_key) = Inr dx"
      and ss: "statuses w (platform_dir_of platform_key) expected_files = Inr ss"
      and r: "r = \<lparr>platform = platform_key, directory_exists = dx, files = zip expected_files ss\<rparr>"
      by (rule check_InrD)
    show ?thesis using r d statuses_length [OF ss] by simp
  qed
  have 5: "fst (check_platform_structure platform_key w1) = fst (check_platform_structure platform_key w2)"
    if "fs_exists w1 (platform_dir_of platform_key) = fs_exists w2 (platform_dir_of platform_key)
        \<and> (\<forall>f \<in> set expected_files.
              fs_exists w1 (joinpath (platform_dir_of platform_key) f)
                = fs_exists w2 (joinpath (platform_dir_of platform_key) f)
              \<and> fs_stat w1 (joinpath (platform_dir_of platform_key) f)
                = fs_stat w2 (joinpath (platform_dir_of platform_key) f))"
    using that by (intro check_depends) simp_all
  have 6: "count_status s (r\<lparr>directory_exists := b\<rparr>) = count_status s r"
    by (simp add: count_status_def)
  have 7: "missing_files_of (r\<lparr>directory_exists := b\<rparr>) = missing_files_of r"
    by (simp add: missing_files_of_def)
  have 8: "total_status s (map (\<lambda>x. x\<lparr>directory_exists := b\<rparr>) rs) = total_status s rs"
    by (simp add: total_status_def comp_def)
  show ?thesis
    using 1 2 3 4 5 6 7 8 status_under_dir [OF _ _ refl, of platform_key w r w']
    by (intro conjI impI ballI) blast+
qed

lemma file_tree_report:
  "check_platform_structure ''jenkins'' (tree_world file_tree)
     = (Inr \<lparr>platform = ''jenkins'', directory_exists = True,
             files =
               [(''README.md'', ''missing''),
                (''templates/basic.yml'', ''missing''),
                (''templates/advanced.yml'', ''missing''),
                (''examples/java-spring-boot-example.md'', ''missing''),
                (''examples/python-fastapi-example.md'', ''missing''),
                (''examples/nodejs-express-example.md'', ''missing''),
                (''examples/go-example.md'', ''missing''),
                (''docs/getting-started.md'', ''missing''),
                (''docs/advanced-configuration.md'', ''missing''),
                (''scripts/setup.sh'', ''missing''),
                (''scripts/validate.sh'', ''missing'')]\<rparr>,
        tree_world file_tree)"
  unfolding check_tree jenkins_dir
  by (simp add: expected_parts_def expected_files_def tree_status_def file_tree_def stat_of_def)

text \<open>
  An instance: \<open>jenkins\<close> on the example tree; \<open>scripts/setup.sh\<close> is not there
  below the fixed directory, so it is \<open>missing\<close>; lines already printed do not change
  the report.
\<close>

theorem fixed_directory_and_list_witness:
  "check_platform_structure ''jenkins'' (tree_world demo_tree) = (Inr demo_report, tree_world demo_tree)
   \<and> platform_dir_of ''jenkins'' = [''workspaces'', ''AI-prompt'', ''pipeline'', ''jenkins'']
   \<and> platform demo_report = ''jenkins''
   \<and> directory_exists demo_report
   \<and> map fst (files demo_report) = expected_files
   \<and> fs_exists (tree_world demo_tree)
        [''workspaces'', ''AI-prompt'', ''pipeline'', ''jenkins'', ''scripts'', ''setup.sh''] = Inr False
   \<and> map_of (files demo_report) ''scripts/setup.sh'' = Some ''missing''
   \<and> fst (check_platform_structure ''jenkins'' ((tree_world demo_tree)\<lparr>stdout := [''x'']\<rparr>))
       = Inr demo_report"
proof -
  note t = fixed_directory_and_list [of "''jenkins''" "tree_world demo_tree" demo_report
      "tree_world demo_tree" "(tree_world demo_tree)\<lparr>stdout := [''x'']\<rparr>" "tree_world demo_tree"]
  have e: "fs_exists (tree_world demo_tree) (platform_dir_of ''jenkins'') = Inr True"
    unfolding jenkins_dir by (simp add: tree_world_def demo_tree_def)
  from t have "platform_dir_of ''jenkins'' = [''workspaces'', ''AI-prompt'', ''pipeline''] @ path_parts ''jenkins''"
    by blast
  then have p: "platform_dir_of ''jenkins'' = [''workspaces'', ''AI-prompt'', ''pipeline'', ''jenkins'']"
    by (simp add: path_parts_def)
  from t check_demo have r: "platform demo_report = ''jenkins''
         \<and> directory_exists demo_report = (fs_exists (tree_world demo_tree) (platform_dir_of ''jenkins'') = Inr True)
         \<and> map fst (files demo_report) = expected_files"
    by blast
  have m: "''scripts/setup.sh'' \<in> set expected_files"
    by (simp add: expected_files_def)
  have x: "fs_exists (tree_world demo_tree)
        [''workspaces'', ''AI-prompt'', ''pipeline'', ''jenkins'', ''scripts'', ''setup.sh''] = Inr False"
    by (simp add: tree_world_def demo_tree_def)
  from t check_demo m have "map_of (files demo_report) ''scripts/setup.sh'' = Some ''missing'' \<longleftrightarrow>
      fs_exists (tree_world demo_tree) ([''workspaces'', ''AI-prompt'', ''pipeline'']
         @ path_parts ''jenkins'' @ path_parts ''scripts/setup.sh'') = Inr False"
    by blast
  then have s: "map_of (files demo_report) ''scripts/setup.sh'' = Some ''missing''"
    using x by (simp add: path_parts_def)
  from t have "fst (check_platform_structure ''jenkins'' ((tree_world demo_tree)\<lparr>stdout := [''x'']\<rparr>))
            = fst (check_platform_structure ''jenkins'' (tree_world demo_tree))"
    by simp
  with check_demo p r e x s show ?thesis by simp
qed

text \<open>
  Against claim C10 as it is stated: on the tree where the path of the platform directory
  is a regular file, no such directory exists, and \<open>directory_exists\<close> is \<open>True\<close>.
\<close>

theorem file_counted_as_directory:
  "fs_stat (tree_world file_tree) (platform_dir_of ''jenkins'')
     = Inr \<lparr>st_size = 7, st_kind = Regular\<rparr>
   \<and> check_platform_structure ''jenkins'' (tree_world file_tree)
     = (Inr \<lparr>platform = ''jenkins'', directory_exists = True,
             files =
               [(''README.md'', ''missing''),
                (''templates/basic.yml'', ''missing''),
                (''templates/advanced.yml'', ''missing''),
                (''examples/java-spring-boot-example.md'', ''missing''),
                (''examples/python-fastapi-example.md'', ''missing''),
                (''examples/nodejs-express-example.md'', ''missing''),
                (''examples/go-example.md'', ''missing''),
                (''docs/getting-started.md'', ''missing''),
                (''docs/advanced-configuration.md'', ''missing''),
                (''scripts/setup.sh'', ''missing''),
                (''scripts/validate.sh'', ''missing'')]\<rparr>,
        tree_world file_tree)"
proof
  show "fs_stat (tree_world file_tree) (platform_dir_of ''jenkins'')
     = Inr \<lparr>st_size = 7, st_kind = Regular\<rparr>"
    unfolding jenkins_dir by (simp add: tree_world_def file_tree_def stat_of_def)
qed (rule file_tree_report)

subsection \<open>Runs that only print\<close>

lemma pure_printerI:
  "(\<And>w s. m (w\<lparr>stdout := s\<rparr>) = (r w, w\<lparr>stdout := s @ ls w\<rparr>)) \<Longrightarrow> pure_printer m"
  unfolding pure_printer_def by blast

lemma pure_printer_return: "pure_printer (return_io a)"
  by (rule pure_printerI [where ls = "\<lambda>w. []"]) (simp add: return_io_def)

lemma pure_printer_raise: "pure_printer (raise_io e)"
  by (rule pure_printerI [where ls = "\<lambda>w. []"]) (simp add: raise_io_def)

lemma pure_printer_lift: "pure_printer (lift_io r)"
  by (rule pure_printerI [where ls = "\<lambda>w. []"]) (simp add: lift_io_def)

lemma pure_printer_print: "pure_printer (print s)"
  by (rule pure_printerI [where ls = "\<lambda>w. [s]"]) (simp add: print_def)

lemma pure_printer_path_exists: "pure_printer (path_exists p)"
  by (rule pure_printerI [where ls = "\<lambda>w. []"
        and r = "\<lambda>w. case fs_exists w p of Inl e \<Rightarrow> Inl (OSError e) | Inr b \<Rightarrow> Inr b"])
     (simp add: path_exists_def split: sum.splits)

lemma pure_printer_path_stat: "pure_printer (path_stat p)"
  by (rule pure_printerI [where ls = "\<lambda>w. []"
        and r = "\<lambda>w. case fs_stat w p of Inl e \<Rightarrow> Inl (OSError e) | Inr b \<Rightarrow> Inr b"])
     (simp add: path_stat_def split: sum.splits)

lemma pure_printer_getitem: "pure_printer (getitem d k)"
  by (simp add: getitem_def pure_printer_raise pure_printer_return split: option.splits)

lemma pure_printer_bind:
  assumes m: "pure_printer m" and f: "\<And>a. pure_printer (f a)"
  shows "pure_printer (bind_io m f)"
  unfolding pure_printer_def
proof
  fix w
  from m obtain r ls where r: "\<And>s. m (w\<lparr>stdout := s\<rparr>) = (r, w\<lparr>stdout := s @ ls\<rparr>)"
    unfolding pure_printer_def by blast
  show "\<exists>r ls. \<forall>s. bind_io m f (w\<lparr>stdout := s\<rparr>) = (r, w\<lparr>stdout := s @ ls\<rparr>)"
  proof (cases r)
    case (Inl e)
    with r have "\<forall>s. bind_io m f (w\<lparr>stdout := s\<rparr>) = (Inl e, w\<lparr>stdout := s @ ls\<rparr>)"
      by (simp add: bind_io_def)
    then show ?thesis by blast
  next
    case (Inr a)
    from f [of a] obtain r2 ls2 where
      r2: "\<And>s. f a (w\<lparr>stdout := s\<rparr>) = (r2, w\<lparr>stdout := s @ ls2\<rparr>)"
      unfolding pure_printer_def by blast
    have "\<forall>s. bind_io m f (w\<lparr>stdout := s\<rparr>) = (r2, w\<lparr>stdout := s @ (ls @ ls2)\<rparr>)"
      using r Inr r2 [of "_ @ ls"] by (simp add: bind_io_def)
    then show ?thesis by blast
  qed
qed

lemma pure_printer_check_files: "pure_printer (check_files d fs acc)"
proof (induction fs arbitrary: acc)
  case Nil
  show ?case by (simp add: pure_printer_return)
next
  case (Cons f rest)
  show ?case
    by (simp add: Let_def pure_printer_bind pure_printer_path_exists pure_printer_path_stat Cons.IH)
qed

lemma pure_printer_check: "pure_printer (check_platform_structure k)"
  by (simp add: check_platform_structure_def Let_def pure_printer_bind pure_printer_path_exists
        pure_printer_check_files pure_printer_return)

lemma pure_printer_print_missing: "pure_printer (print_missing fs)"
  by (induction fs) (simp_all add: pure_printer_return pure_printer_bind pure_printer_print)

lemma pure_printer_report_missing: "pure_printer (report_missing ms)"
  by (simp add: report_missing_def pure_printer_return pure_printer_bind pure_printer_print
        pure_printer_print_missing)

lemma pure_printer_report_platform: "pure_printer (report_platform P k status)"
  by (simp add: report_platform_def Let_def pure_printer_bind pure_printer_print
        pure_printer_getitem pure_printer_report_missing)

lemma pure_printer_main_loop: "pure_printer (main_loop P ks acc)"
proof (induction ks arbitrary: acc)
  case Nil
  show ?case by (simp add: pure_printer_return)
next
  case (Cons k rest)
  show ?case
    by (simp add: pure_printer_bind pure_printer_check pure_printer_report_platform Cons.IH)
qed

lemma pure_printer_main: "pure_printer (main fmt P)"
  unfolding main_def Let_def
  by (intro pure_printer_bind pure_printer_print pure_printer_main_loop pure_printer_lift
        pure_printer_return)

lemma world_stdout_same: "w\<lparr>stdout := stdout w\<rparr> = w"
  by simp

lemma pure_printerD:
  assumes "pure_printer m"
  shows "\<exists>r ls. (\<forall>s. m (w\<lparr>stdout := s\<rparr>) = (r, w\<lparr>stdout := s @ ls\<rparr>))
    \<and> m w = (r, w\<lparr>stdout := stdout w @ ls\<rparr>) \<and> printed m w = ls"
proof -
  from assms obtain r ls where r: "\<And>s. m (w\<lparr>stdout := s\<rparr>) = (r, w\<lparr>stdout := s @ ls\<rparr>)"
    unfolding pure_printer_def by blast
  have "m (w\<lparr>stdout := stdout w\<rparr>) = (r, w\<lparr>stdout := stdout w @ ls\<rparr>)"
    by (rule r)
  then have mw: "m w = (r, w\<lparr>stdout := stdout w @ ls\<rparr>)"
    by (simp only: world_stdout_same)
  have "printed m w = drop (length (stdout w)) (stdout (snd (r, w\<lparr>stdout := stdout w @ ls\<rparr>)))"
    unfolding printed_def by (simp only: mw)
  then have "printed m w = ls"
    by simp
  with r mw show ?thesis by blast
qed

lemma pure_printer_run:
  assumes "pure_printer m"
  shows "snd (m w) = w\<lparr>stdout := stdout w @ printed m w\<rparr>"
    and "m (w\<lparr>stdout := s\<rparr>) = (fst (m w), w\<lparr>stdout := s @ printed m w\<rparr>)"
proof -
  from assms obtain r ls where r: "\<And>s. m (w\<lparr>stdout := s\<rparr>) = (r, w\<lparr>stdout := s @ ls\<rparr>)"
    and mw: "m w = (r, w\<lparr>stdout := stdout w @ ls\<rparr>)" and p: "printed m w = ls"
    using pure_printerD [of m w] by blast
  show "snd (m w) = w\<lparr>stdout := stdout w @ printed m w\<rparr>"
    unfolding p by (simp only: mw snd_conv)
  show "m (w\<lparr>stdout := s\<rparr>) = (fst (m w), w\<lparr>stdout := s @ printed m w\<rparr>)"
    unfolding p by (simp only: mw r fst_conv)
qed

lemma pure_printer_again:
  assumes "pure_printer m"
  shows "fst (m (snd (m w))) = fst (m w)" and "printed m (snd (m w)) = printed m w"
proof -
  from assms obtain r ls where r: "\<And>s. m (w\<lparr>stdout := s\<rparr>) = (r, w\<lparr>stdout := s @ ls\<rparr>)"
    and mw: "m w = (r, w\<lparr>stdout := stdout w @ ls\<rparr>)" and p: "printed m w = ls"
    using pure_printerD [of m w] by blast
  have s: "snd (m w) = w\<lparr>stdout := stdout w @ ls\<rparr>"
    by (simp only: mw snd_conv)
  have 2: "m (snd (m w)) = (r, w\<lparr>stdout := (stdout w @ ls) @ ls\<rparr>)"
    unfolding s by (rule r)
  show "fst (m (snd (m w))) = fst (m w)"
    unfolding 2 by (simp only: mw fst_conv)
  have "printed m (snd (m w)) = drop (length (stdout (snd (m w)))) (stdout (snd (m (snd (m w)))))"
    by (simp only: printed_def)
  also have "\<dots> = drop (length (stdout w @ ls)) ((stdout w @ ls) @ ls)"
    by (simp add: s r)
  also have "\<dots> = ls" by simp
  finally show "printed m (snd (m w)) = printed m w"
    unfolding p .
qed

subsection \<open>The loop over the platforms\<close>

lemma bind_print: "bind_io (print s) f w = f () (w\<lparr>stdout := stdout w @ [s]\<rparr>)"
  by (simp add: bind_io_def print_def)

lemma check_stdout:
  "check_platform_structure k (w\<lparr>stdout := s\<rparr>) = (fst (check_platform_structure k w), w\<lparr>stdout := s\<rparr>)"
proof -
  have "statuses (w\<lparr>stdout := s\<rparr>) d fs = statuses w d fs" for d fs
    by (rule statuses_cong, rule file_status_cong) simp_all
  then show ?thesis
    by (simp add: check_platform_structure_eq split: sum.splits)
qed

lemma main_loop_Inr:
  "main_loop P ks acc (w\<lparr>stdout := s\<rparr>) = (Inr all, w') \<Longrightarrow>
   \<exists>rs. all = acc @ rs \<and> list_all2 (\<lambda>k r. fst (check_platform_structure k w) = Inr r) ks rs"
proof (induction ks arbitrary: acc s)
  case Nil
  then show ?case by (simp add: return_io_def)
next
  case (Cons k rest)
  define r2 where "r2 st = fst (report_platform P k st w)" for st
  define ls where "ls st = printed (report_platform P k st) w" for st
  have rp: "report_platform P k st (w\<lparr>stdout := s\<rparr>) = (r2 st, w\<lparr>stdout := s @ ls st\<rparr>)" for st s
    unfolding r2_def ls_def by (rule pure_printer_run(2) [OF pure_printer_report_platform])
  from Cons.prems obtain status where
    c: "fst (check_platform_structure k w) = Inr status"
    and rest: "main_loop P rest (acc @ [status]) (w\<lparr>stdout := s @ ls status\<rparr>) = (Inr all, w')"
    by (auto simp: bind_io_def check_stdout rp split: sum.splits)
  from Cons.IH [OF rest] obtain rs where
    "all = (acc @ [status]) @ rs" "list_all2 (\<lambda>k r. fst (check_platform_structure k w) = Inr r) rest rs"
    by blast
  with c have "all = acc @ (status # rs)
      \<and> list_all2 (\<lambda>k r. fst (check_platform_structure k w) = Inr r) (k # rest) (status # rs)"
    by simp
  then show ?case by blast
qed

lemma completion_of_Inr:
  "completion_of e t =
     Inr (if t > 0 then real_of_int e / real_of_int t * 100 else 0)"
  by (simp add: completion_of_def truediv_def)

lemma bind_lift_Inr: "bind_io (lift_io (Inr c)) f w = f c w"
  by (simp add: bind_io_def lift_io_def)

lemma main_run:
  assumes "main_loop P (sort (map fst P)) []
             (w\<lparr>stdout := stdout w @ [replicate 80 CHR ''='',
                ''CI/CD Platform Content Status Report'', replicate 80 CHR ''='']\<rparr>) = (r, w')"
  shows "main fmt P w =
     (case r of
        Inl e \<Rightarrow> (Inl e, w')
      | Inr all_statuses \<Rightarrow>
          (Inr all_statuses,
           w'\<lparr>stdout := stdout w' @
             [CHR 0x0A # replicate 80 CHR ''='',
              ''Summary'',
              replicate 80 CHR ''='',
              ''Total Expected Files:  '' @ str (int (length P) * 11),
              ''Existing with Content: '' @ str (total_status ''exists'' all_statuses),
              ''Empty Files:           '' @ str (total_status ''empty'' all_statuses),
              ''Missing Files:         '' @ str (total_status ''missing'' all_statuses),
              CHR 0x0A # ''Completion: ''
                @ fmt (if int (length P) * 11 > 0
                       then real_of_int (total_status ''exists'' all_statuses)
                            / real_of_int (int (length P) * 11) * 100
                       else 0) @ ''%'']\<rparr>))"
proof (cases r)
  case (Inl e)
  with assms have l: "main_loop P (sort (map fst P)) []
             (w\<lparr>stdout := stdout w @ [replicate 80 CHR ''='',
                ''CI/CD Platform Content Status Report'', replicate 80 CHR ''='']\<rparr>) = (Inl e, w')"
    by simp
  show ?thesis
    unfolding main_def Let_def by (simp add: bind_print bind_io_Inl [where m = "main_loop P (sort (map fst P)) []", OF l] Inl)
next
  case (Inr all_statuses)
  with assms have l: "main_loop P (sort (map fst P)) []
             (w\<lparr>stdout := stdout w @ [replicate 80 CHR ''='',
                ''CI/CD Platform Content Status Report'', replicate 80 CHR ''='']\<rparr>)
         = (Inr all_statuses, w')"
    by simp
  show ?thesis
    unfolding main_def Let_def
    by (simp add: bind_print bind_io_Inr [where m = "main_loop P (sort (map fst P)) []", OF l] bind_lift_Inr completion_of_Inr return_io_def Inr)
qed

lemma main_Inr:
  assumes "fst (main fmt P w) = Inr all"
  shows "\<exists>s w'. main_loop P (sort (map fst P)) [] (w\<lparr>stdout := s\<rparr>) = (Inr all, w')"
proof -
  let ?w3 = "w\<lparr>stdout := stdout w @ [replicate 80 CHR ''='',
      ''CI/CD Platform Content Status Report'', replicate 80 CHR ''='']\<rparr>"
  obtain r w' where l: "main_loop P (sort (map fst P)) [] ?w3 = (r, w')"
    by (cases "main_loop P (sort (map fst P)) [] ?w3")
  from assms have "r = Inr all"
    unfolding main_run [OF l] by (cases r) simp_all
  with l show ?thesis by blast
qed

lemma main_reports:
  assumes "fst (main fmt P w) = Inr all"
  shows "list_all2 (\<lambda>k r. fst (check_platform_structure k w) = Inr r) (sort (map fst P)) all"
proof -
  from main_Inr [OF assms] obtain s w' where
    "main_loop P (sort (map fst P)) [] (w\<lparr>stdout := s\<rparr>) = (Inr all, w')"
    by blast
  from main_loop_Inr [OF this] show ?thesis by simp
qed

subsection \<open>What \<open>main\<close> prints and returns\<close>

lemma print_missing_run:
  "print_missing fs w = (Inr (), w\<lparr>stdout := stdout w @ map (\<lambda>f. ''    - '' @ f) fs\<rparr>)"
  by (induction fs arbitrary: w) (simp_all add: return_io_def bind_print)

lemma report_missing_run:
  "report_missing ms w =
     (Inr (), w\<lparr>stdout := stdout w @
        (if ms = [] then []
         else ''  Missing files:'' # map (\<lambda>f. ''    - '' @ f) (take 5 ms)
              @ (if 5 < length ms then [''    ... and '' @ str (int (length ms) - 5) @ '' more'']
                 else []))\<rparr>)"
  by (simp add: report_missing_def bind_print bind_io_def print_missing_run return_io_def print_def)

lemma report_platform_run:
  assumes "map_of P k = Some info" "map_of info ''name'' = Some n"
  shows "report_platform P k status w =
     (Inr (), w\<lparr>stdout := stdout w @
        [CHR 0x0A # n @ '' ('' @ k @ '')'',
         replicate 80 CHR ''-'',
         ''  Exists:  '' @ str (count_status ''exists'' status)
           @ '' | Empty:  '' @ str (count_status ''empty'' status)
           @ '' | Missing: '' @ str (count_status ''missing'' status)]
        @ (if missing_files_of status = [] then []
           else ''  Missing files:'' # map (\<lambda>f. ''    - '' @ f) (take 5 (missing_files_of status))
                @ (if 5 < length (missing_files_of status)
                   then [''    ... and '' @ str (int (length (missing_files_of status)) - 5) @ '' more'']
                   else []))\<rparr>)"
  using assms
  by (simp add: report_platform_def getitem_def bind_io_return bind_print Let_def report_missing_run)

lemma report_platform_named:
  "named P k \<Longrightarrow> fst (report_platform P k status w) = Inr ()"
  unfolding named_def using report_platform_run by fastforce

lemma main_loop_named:
  "(\<And>k. k \<in> set ks \<Longrightarrow> named P k) \<Longrightarrow>
   fst (main_loop P ks acc (w\<lparr>stdout := s\<rparr>))
     = (case reports_of w ks of Inl e \<Rightarrow> Inl e | Inr rs \<Rightarrow> Inr (acc @ rs))"
proof (induction ks arbitrary: acc s)
  case Nil
  show ?case by (simp add: return_io_def)
next
  case (Cons k rest)
  have n: "named P k" using Cons.prems by simp
  define ls where "ls st = printed (report_platform P k st) w" for st
  have rp: "report_platform P k st (w\<lparr>stdout := s\<rparr>) = (Inr (), w\<lparr>stdout := s @ ls st\<rparr>)" for st s
    using pure_printer_run(2) [OF pure_printer_report_platform [of P k st], where w = w and s = s]
      report_platform_named [OF n, of st w]
    by (simp add: ls_def)
  show ?case
  proof (cases "fst (check_platform_structure k w)")
    case (Inl e)
    then show ?thesis by (simp add: bind_io_def check_stdout)
  next
    case (Inr status)
    have "fst (main_loop P (k # rest) acc (w\<lparr>stdout := s\<rparr>))
        = fst (main_loop P rest (acc @ [status]) (w\<lparr>stdout := s @ ls status\<rparr>))"
      by (simp add: bind_io_def check_stdout Inr rp)
    also have "\<dots> = (case reports_of w rest of Inl e \<Rightarrow> Inl e | Inr rs \<Rightarrow> Inr ((acc @ [status]) @ rs))"
      by (rule Cons.IH) (simp add: Cons.prems)
    finally show ?thesis using Inr by (simp split: sum.splits)
  qed
qed

lemma summarize_total:
  "summarize P all_statuses =
     Inr \<lparr>sum_total_files = int (length P) * 11,
          sum_existing_files = total_status ''exists'' all_statuses,
          sum_empty_files = total_status ''empty'' all_statuses,
          sum_missing_files = total_status ''missing'' all_statuses,
          sum_completion = (if int (length P) * 11 > 0
                            then real_of_int (total_status ''exists'' all_statuses)
                                 / real_of_int (int (length P) * 11) * 100
                            else 0)\<rparr>"
  by (simp add: summarize_def completion_of_Inr Let_def)

lemma main_fst:
  "fst (main fmt P w) =
     fst (main_loop P (sort (map fst P)) []
           (w\<lparr>stdout := stdout w @ [replicate 80 CHR ''='',
              ''CI/CD Platform Content Status Report'', replicate 80 CHR ''='']\<rparr>))"
proof -
  let ?w3 = "w\<lparr>stdout := stdout w @ [replicate 80 CHR ''='',
      ''CI/CD Platform Content Status Report'', replicate 80 CHR ''='']\<rparr>"
  obtain r w' where l: "main_loop P (sort (map fst P)) [] ?w3 = (r, w')"
    by (cases "main_loop P (sort (map fst P)) [] ?w3")
  show ?thesis
    unfolding main_run [OF l] l by (cases r) simp_all
qed

lemma main_named:
  "(\<And>k. k \<in> set (map fst P) \<Longrightarrow> named P k) \<Longrightarrow>
   fst (main fmt P w) = reports_of w (sort (map fst P))"
  unfolding main_fst
  by (subst main_loop_named) (auto split: sum.splits)

lemma named_demo: "k \<in> set (map fst demo_registry) \<Longrightarrow> named demo_registry k"
  unfolding named_def by (auto simp add: demo_registry_def platform_entry_def)

lemma main_demo: "fst (main fmt demo_registry (tree_world demo_tree)) = Inr [demo_report]"
proof -
  have "fst (main fmt demo_registry (tree_world demo_tree))
      = reports_of (tree_world demo_tree) (sort (map fst demo_registry))"
    by (rule main_named) (rule named_demo)
  then show ?thesis
    by (simp add: demo_registry_def check_demo)
qed

text \<open>
  \<^bold>\<open>Claim C5.\<close>  The summary computes the completion as the number of existing files
  divided by the total number of expected files, times 100; with an empty registry the
  total is 0, the completion is 0, and no division by zero is raised.

  In turn: the expression of line 211 never raises and has this value; the numbers of
  the summary; the empty registry; and the number that \<open>main\<close> formats in its last line.
\<close>

theorem completion_percent:
  "completion_of existing_files total_files
     = Inr (if total_files > 0 then real_of_int existing_files / real_of_int total_files * 100
            else 0)
   \<and> (\<exists>s. summarize P all_statuses = Inr s
        \<and> sum_total_files s = int (length P) * 11
        \<and> sum_existing_files s = total_status ''exists'' all_statuses
        \<and> sum_completion s
            = (if sum_total_files s = 0 then 0
               else real_of_int (sum_existing_files s) / real_of_int (sum_total_files s) * 100))
   \<and> summarize [] all_statuses
       = Inr \<lparr>sum_total_files = 0,
              sum_existing_files = total_status ''exists'' all_statuses,
              sum_empty_files = total_status ''empty'' all_statuses,
              sum_missing_files = total_status ''missing'' all_statuses,
              sum_completion = 0\<rparr>
   \<and> fst (main fmt [] w) = Inr []
   \<and> (fst (main fmt P w) = Inr all_statuses \<longrightarrow>
        last (stdout (snd (main fmt P w)))
          = CHR 0x0A # ''Completion: ''
              @ fmt (if P = [] then 0
                     else real_of_int (total_status ''exists'' all_statuses)
                          / real_of_int (int (length P) * 11) * 100) @ ''%'')"
proof (intro conjI impI)
  show "completion_of existing_files total_files
     = Inr (if total_files > 0 then real_of_int existing_files / real_of_int total_files * 100
            else 0)"
    by (rule completion_of_Inr)
  show "\<exists>s. summarize P all_statuses = Inr s
        \<and> sum_total_files s = int (length P) * 11
        \<and> sum_existing_files s = total_status ''exists'' all_statuses
        \<and> sum_completion s
            = (if sum_total_files s = 0 then 0
               else real_of_int (sum_existing_files s) / real_of_int (sum_total_files s) * 100)"
    unfolding summarize_total by (cases P) simp_all
  show "summarize [] all_statuses
       = Inr \<lparr>sum_total_files = 0,
              sum_existing_files = total_status ''exists'' all_statuses,
              sum_empty_files = total_status ''empty'' all_statuses,
              sum_missing_files = total_status ''missing'' all_statuses,
              sum_completion = 0\<rparr>"
    unfolding summarize_total by simp
  show "fst (main fmt [] w) = Inr []"
    unfolding main_fst by (simp add: return_io_def)
next
  assume a: "fst (main fmt P w) = Inr all_statuses"
  let ?w3 = "w\<lparr>stdout := stdout w @ [replicate 80 CHR ''='',
      ''CI/CD Platform Content Status Report'', replicate 80 CHR ''='']\<rparr>"
  obtain r w' where l: "main_loop P (sort (map fst P)) [] ?w3 = (r, w')"
    by (cases "main_loop P (sort (map fst P)) [] ?w3")
  from a have r: "r = Inr all_statuses"
    unfolding main_run [OF l] by (cases r) simp_all
  show "last (stdout (snd (main fmt P w)))
          = CHR 0x0A # ''Completion: ''
              @ fmt (if P = [] then 0
                     else real_of_int (total_status ''exists'' all_statuses)
                          / real_of_int (int (length P) * 11) * 100) @ ''%''"
    unfolding main_run [OF l] r by (cases P) simp_all
qed

lemma demo_fmt_example: "demo_fmt (100 / 11) = ''9.1''"
  by (simp add: demo_fmt_def str_def)

text \<open>
  An instance: one platform with one of eleven files in place gives \<open>100 / 11\<close>, about 9.1.
\<close>

theorem completion_percent_witness:
  "fst (main demo_fmt demo_registry (tree_world demo_tree)) = Inr [demo_report]
   \<and> last (stdout (snd (main demo_fmt demo_registry (tree_world demo_tree))))
       = CHR 0x0A # ''Completion: 9.1%''
   \<and> (\<exists>s. summarize demo_registry [demo_report] = Inr s
       \<and> sum_total_files s = 11 \<and> sum_existing_files s = 1 \<and> sum_completion s = 100 / 11)"
proof -
  note t = completion_percent [of 1 11 demo_registry "[demo_report]" demo_fmt "tree_world demo_tree"]
  have e: "total_status ''exists'' [demo_report] = 1"
    by (simp add: total_status_def demo_report_def)
  have l: "int (length demo_registry) * 11 = 11" and n: "demo_registry \<noteq> []"
    by (simp_all add: demo_registry_def)
  from t obtain s where
    s: "summarize demo_registry [demo_report] = Inr s"
      "sum_total_files s = int (length demo_registry) * 11"
      "sum_existing_files s = total_status ''exists'' [demo_report]"
      "sum_completion s = (if sum_total_files s = 0 then 0
          else real_of_int (sum_existing_files s) / real_of_int (sum_total_files s) * 100)"
    by blast
  from s e l have "sum_total_files s = 11 \<and> sum_existing_files s = 1 \<and> sum_completion s = 100 / 11"
    by simp
  with s(1) have 1: "\<exists>s. summarize demo_registry [demo_report] = Inr s
       \<and> sum_total_files s = 11 \<and> sum_existing_files s = 1 \<and> sum_completion s = 100 / 11"
    by blast
  have m: "fst (main demo_fmt demo_registry (tree_world demo_tree)) = Inr [demo_report]"
    by (rule main_demo)
  from t m have "last (stdout (snd (main demo_fmt demo_registry (tree_world demo_tree))))
      = CHR 0x0A # ''Completion: ''
          @ demo_fmt (if demo_registry = [] then 0
               else real_of_int (total_status ''exists'' [demo_report])
                    / real_of_int (int (length demo_registry) * 11) * 100) @ ''%''"
    by blast
  then have 2: "last (stdout (snd (main demo_fmt demo_registry (tree_world demo_tree))))
       = CHR 0x0A # ''Completion: 9.1%''"
    by (simp add: n e l demo_fmt_example)
  from 1 2 m show ?thesis by blast
qed

subsection \<open>The counts of the summary\<close>

lemma partition3:
  assumes "\<forall>x \<in> set xs. snd x = a \<or> snd x = b \<or> snd x = c" "a \<noteq> b" "a \<noteq> c" "b \<noteq> c"
  shows "length (filter (\<lambda>(f, st). st = a) xs) + length (filter (\<lambda>(f, st). st = b) xs)
       + length (filter (\<lambda>(f, st). st = c) xs) = length xs"
  using assms by (induction xs) auto

lemma report_partition:
  assumes "fst (check_platform_structure k w) = Inr r"
  shows "int (length (filter (\<lambda>(f, st). st = ''exists'') (files r)))
       + int (length (filter (\<lambda>(f, st). st = ''empty'') (files r)))
       + int (length (filter (\<lambda>(f, st). st = ''missing'') (files r))) = 11"
proof -
  from assms have "check_platform_structure k w = (Inr r, w)"
    using check_world [of k w] by (cases "check_platform_structure k w") simp
  then obtain dx ss where
    ss: "statuses w (platform_dir_of k) expected_files = Inr ss"
    and r: "r = \<lparr>platform = k, directory_exists = dx, files = zip expected_files ss\<rparr>"
    by (rule check_InrD)
  have len: "length ss = length expected_files" using statuses_length [OF ss] .
  have "\<forall>x \<in> set (files r). snd x = ''exists'' \<or> snd x = ''empty'' \<or> snd x = ''missing''"
    using statuses_values [OF ss] r by (auto dest: set_zip_rightD)
  from partition3 [OF this] have
    "length (filter (\<lambda>(f, st). st = ''exists'') (files r))
       + length (filter (\<lambda>(f, st). st = ''empty'') (files r))
       + length (filter (\<lambda>(f, st). st = ''missing'') (files r)) = length (files r)"
    by simp
  moreover have "length (files r) = 11"
    using r len length_expected_files by simp
  ultimately show ?thesis by linarith
qed

lemma total_partition:
  assumes "list_all2 (\<lambda>k r. fst (check_platform_structure k w) = Inr r) ks rs"
  shows "total_status ''exists'' rs + total_status ''empty'' rs + total_status ''missing'' rs
       = int (length ks) * 11"
  using assms
proof (induction ks rs rule: list_all2_induct)
  case Nil
  show ?case by (simp add: total_status_def)
next
  case (Cons k ks r rs)
  from report_partition [OF Cons.hyps(1)] Cons.IH show ?case
    by (simp add: total_status_def algebra_simps)
qed

text \<open>
  \<^bold>\<open>Claim C3.\<close>  For the reports that \<open>main\<close> collects over the platform registry, the
  counts of the summary partition the total: the numbers of existing, empty and missing
  files add up to the total number of expected files, which is the number of platforms
  times the number of expected paths.
\<close>

theorem counts_partition:
  assumes "fst (main fmt P w) = Inr all_statuses"
  shows "\<exists>s. summarize P all_statuses = Inr s
           \<and> sum_existing_files s + sum_empty_files s + sum_missing_files s = sum_total_files s
           \<and> sum_total_files s = int (length P) * int (length expected_files)"
proof -
  from summarize_total [of P all_statuses] obtain s where
    s: "summarize P all_statuses = Inr s" "sum_total_files s = int (length P) * 11"
      "sum_existing_files s = total_status ''exists'' all_statuses"
      "sum_empty_files s = total_status ''empty'' all_statuses"
      "sum_missing_files s = total_status ''missing'' all_statuses"
    by simp
  from total_partition [OF main_reports [OF assms]] have
    "total_status ''exists'' all_statuses + total_status ''empty'' all_statuses
       + total_status ''missing'' all_statuses = int (length P) * 11"
    by simp
  with s show ?thesis by (simp add: length_expected_files)
qed

text \<open>
  An instance: \<open>main\<close> over the registry of one platform on the example tree.
\<close>

theorem counts_partition_witness:
  "fst (main demo_fmt demo_registry (tree_world demo_tree)) = Inr [demo_report]
   \<and> (\<exists>s. summarize demo_registry [demo_report] = Inr s
           \<and> sum_existing_files s + sum_empty_files s + sum_missing_files s = sum_total_files s
           \<and> sum_total_files s = 11)"
proof -
  from counts_partition [OF main_demo [of demo_fmt]] obtain s where
    "summarize demo_registry [demo_report] = Inr s"
    "sum_existing_files s + sum_empty_files s + sum_missing_files s = sum_total_files s"
    "sum_total_files s = int (length demo_registry) * int (length expected_files)"
    by blast
  moreover have "int (length demo_registry) * int (length expected_files) = 11"
    by (simp add: demo_registry_def length_expected_files)
  ultimately show ?thesis using main_demo [of demo_fmt] by auto
qed

subsection \<open>The listing of missing files\<close>

text \<open>
  \<^bold>\<open>Claim C6.\<close>  In what \<open>main\<close> prints for one platform: when more than five files are
  missing, the listing shows exactly the first five missing paths and then the line
  \<open>... and N more\<close> with \<open>N\<close> the number of missing files minus five; when between one and
  five files are missing, all of them are listed and no such line follows.

  \<open>head\<close> stands for the three lines printed before the listing.
\<close>

theorem missing_listing:
  assumes "map_of P platform_key = Some info"
    and "map_of info ''name'' = Some platform_name"
    and "ms = missing_files_of status"
    and "head = [CHR 0x0A # platform_name @ '' ('' @ platform_key @ '')'',
                 replicate 80 CHR ''-'',
                 ''  Exists:  '' @ str (count_status ''exists'' status)
                   @ '' | Empty:  '' @ str (count_status ''empty'' status)
                   @ '' | Missing: '' @ str (count_status ''missing'' status)]"
  shows "count_status ''missing'' status = int (length ms)
       \<and> (5 < length ms \<longrightarrow>
            printed (report_platform P platform_key status) w
              = head @ [''  Missing files:''] @ map (\<lambda>f. ''    - '' @ f) (take 5 ms)
                  @ [''    ... and '' @ str (int (length ms) - 5) @ '' more''])
       \<and> (0 < length ms \<and> length ms \<le> 5 \<longrightarrow>
            printed (report_platform P platform_key status) w
              = head @ [''  Missing files:''] @ map (\<lambda>f. ''    - '' @ f) ms)
       \<and> (length ms = 0 \<longrightarrow> printed (report_platform P platform_key status) w = head)"
proof -
  have c: "count_status ''missing'' status = int (length ms)"
    unfolding assms(3) count_status_def missing_files_of_def
    by (simp add: filter_map comp_def case_prod_unfold)
  have p: "printed (report_platform P platform_key status) w
      = head @ (if ms = [] then []
           else ''  Missing files:'' # map (\<lambda>f. ''    - '' @ f) (take 5 ms)
                @ (if 5 < length ms
                   then [''    ... and '' @ str (int (length ms) - 5) @ '' more'']
                   else []))"
    unfolding printed_def report_platform_run [OF assms(1,2)] assms(3,4) by simp
  show ?thesis
    unfolding p using c by auto
qed

lemma demo_missing:
  "missing_files_of demo_report =
     [''templates/basic.yml'', ''templates/advanced.yml'', ''examples/java-spring-boot-example.md'',
      ''examples/python-fastapi-example.md'', ''examples/nodejs-express-example.md'',
      ''examples/go-example.md'', ''docs/advanced-configuration.md'', ''scripts/setup.sh'',
      ''scripts/validate.sh'']"
  by (simp add: missing_files_of_def demo_report_def)

lemma nearly_done_missing:
  "missing_files_of nearly_done_report = [''templates/advanced.yml'', ''scripts/validate.sh'']"
  by (simp add: missing_files_of_def nearly_done_report_def)

lemma str_4: "str 4 = ''4''"
  by (simp add: str_def)

text \<open>
  Two instances: nine missing files, of which five are listed and four counted, and two
  missing files, both listed.
\<close>

theorem missing_listing_witness:
  "map_of demo_registry ''jenkins'' = Some (platform_entry ''Jenkins'' ''selfhosted'' ''groovy'' [])
   \<and> map_of (platform_entry ''Jenkins'' ''selfhosted'' ''groovy'' []) ''name'' = Some ''Jenkins''
   \<and> length (missing_files_of demo_report) = 9
   \<and> drop 3 (printed (report_platform demo_registry ''jenkins'' demo_report) (tree_world demo_tree))
      = [''  Missing files:'',
         ''    - templates/basic.yml'',
         ''    - templates/advanced.yml'',
         ''    - examples/java-spring-boot-example.md'',
         ''    - examples/python-fastapi-example.md'',
         ''    - examples/nodejs-express-example.md'',
         ''    ... and 4 more'']
   \<and> length (missing_files_of nearly_done_report) = 2
   \<and> drop 3 (printed (report_platform demo_registry ''jenkins'' nearly_done_report) (tree_world demo_tree))
      = [''  Missing files:'',
         ''    - templates/advanced.yml'',
         ''    - scripts/validate.sh'']"
proof -
  have g: "map_of demo_registry ''jenkins'' = Some (platform_entry ''Jenkins'' ''selfhosted'' ''groovy'' [])"
    by (simp add: demo_registry_def)
  have n: "map_of (platform_entry ''Jenkins'' ''selfhosted'' ''groovy'' []) ''name'' = Some ''Jenkins''"
    by (simp add: platform_entry_def)
  have a: "drop 3 (printed (report_platform demo_registry ''jenkins'' demo_report) (tree_world demo_tree))
      = [''  Missing files:''] @ map (\<lambda>f. ''    - '' @ f) (take 5 (missing_files_of demo_report))
          @ [''    ... and '' @ str (int (length (missing_files_of demo_report)) - 5) @ '' more'']"
    using missing_listing [OF g n refl refl, of demo_report "tree_world demo_tree"]
    by (simp add: demo_missing)
  have b: "drop 3 (printed (report_platform demo_registry ''jenkins'' nearly_done_report) (tree_world demo_tree))
      = [''  Missing files:''] @ map (\<lambda>f. ''    - '' @ f) (missing_files_of nearly_done_report)"
    using missing_listing [OF g n refl refl, of nearly_done_report "tree_world demo_tree"]
    by (simp add: nearly_done_missing)
  show ?thesis
    using g n a b by (simp add: demo_missing nearly_done_missing str_4)
qed

text \<open>
  \<^bold>\<open>Claim C8.\<close>  The checker only reads: \<open>check_platform_structure\<close> leaves the world as
  it found it, so a second run on it gives the same report.  \<open>main\<close> leaves the answers
  of the file system as they are and only appends to standard output; run a second time
  it returns the same reports and prints the same lines; and the reports it returns are
  the ones \<open>check_platform_structure\<close> gives, unchanged by the printing.
\<close>

theorem read_only_and_repeatable:
  "snd (check_platform_structure platform_key w) = w
   \<and> check_platform_structure platform_key (snd (check_platform_structure platform_key w))
       = check_platform_structure platform_key w
   \<and> fs_exists (snd (main fmt P w)) = fs_exists w
   \<and> fs_stat (snd (main fmt P w)) = fs_stat w
   \<and> stdout (snd (main fmt P w)) = stdout w @ printed (main fmt P) w
   \<and> fst (main fmt P (snd (main fmt P w))) = fst (main fmt P w)
   \<and> printed (main fmt P) (snd (main fmt P w)) = printed (main fmt P) w
   \<and> (fst (main fmt P w) = Inr all_statuses \<longrightarrow>
        map Inr all_statuses
          = map (\<lambda>k. fst (check_platform_structure k w)) (sort (map fst P)))"
proof (intro conjI impI)
  show 1: "snd (check_platform_structure platform_key w) = w"
    by (rule check_world)
  show "check_platform_structure platform_key (snd (check_platform_structure platform_key w))
       = check_platform_structure platform_key w"
    unfolding 1 ..
  have s: "snd (main fmt P w) = w\<lparr>stdout := stdout w @ printed (main fmt P) w\<rparr>"
    by (rule pure_printer_run(1) [OF pure_printer_main])
  show "fs_exists (snd (main fmt P w)) = fs_exists w"
    unfolding s by simp
  show "fs_stat (snd (main fmt P w)) = fs_stat w"
    unfolding s by simp
  show "stdout (snd (main fmt P w)) = stdout w @ printed (main fmt P) w"
    unfolding s by simp
  show "fst (main fmt P (snd (main fmt P w))) = fst (main fmt P w)"
    by (rule pure_printer_again(1) [OF pure_printer_main])
  show "printed (main fmt P) (snd (main fmt P w)) = printed (main fmt P) w"
    by (rule pure_printer_again(2) [OF pure_printer_main])
next
  assume "fst (main fmt P w) = Inr all_statuses"
  from main_reports [OF this]
  have "list_all2 (\<lambda>k r. fst (check_platform_structure k w) = Inr r) (sort (map fst P)) all_statuses" .
  then show "map Inr all_statuses = map (\<lambda>k. fst (check_platform_structure k w)) (sort (map fst P))"
    by (induction rule: list_all2_induct) auto
qed

text \<open>
  An instance: \<open>main\<close> run twice in a row on the example tree.
\<close>

theorem read_only_and_repeatable_witness:
  "fst (main demo_fmt demo_registry (tree_world demo_tree)) = Inr [demo_report]
   \<and> fst (check_platform_structure ''jenkins'' (tree_world demo_tree)) = Inr demo_report
   \<and> fst (main demo_fmt demo_registry (snd (main demo_fmt demo_registry (tree_world demo_tree))))
       = Inr [demo_report]"
proof -
  note t = read_only_and_repeatable [of "''jenkins''" "tree_world demo_tree" demo_fmt demo_registry
      "[demo_report]"]
  have m: "fst (main demo_fmt demo_registry (tree_world demo_tree)) = Inr [demo_report]"
    by (rule main_demo)
  from t m have "map Inr [demo_report]
      = map (\<lambda>k. fst (check_platform_structure k (tree_world demo_tree))) (sort (map fst demo_registry))"
    by blast
  then have c: "fst (check_platform_structure ''jenkins'' (tree_world demo_tree)) = Inr demo_report"
    by (simp add: demo_registry_def)
  from t have "fst (main demo_fmt demo_registry (snd (main demo_fmt demo_registry (tree_world demo_tree))))
      = fst (main demo_fmt demo_registry (tree_world demo_tree))"
    by blast
  with m c show ?thesis by simp
qed






end
